theory Spec2Isabelle
  imports Complex_Main "HOL-Library.AList" "HOL-Library.Sublist"
begin

section \<open>Shared data\<close>

text \<open>
  An alert as the server sends it in \<^verbatim>\<open>{success, alerts:[Alert...]}\<close> and as the
  store keeps it. Identifiers and timestamps are integers, confidence is a real in
  \<open>[0,1]\<close>, text is a \<open>string\<close>.
\<close>

datatype severity = LOW | MEDIUM | HIGH

datatype alert_status = PENDING | ACKNOWLEDGED

record alert =
  alert_id :: int
  alert_camera_id :: int
  camera_name :: string
  alert_object_class :: string
  alert_confidence :: real
  alert_severity :: severity
  location :: string
  snapshot_reference :: string
  created_at :: int
  status :: alert_status
  acknowledged_by :: "string option"
  acknowledged_at :: "int option"

section \<open>dashboard.js\<close>

subsection \<open>Strings, requests and visible effects\<close>

text \<open>
  A JavaScript string is a sequence of UTF-16 code units. \<open>js\<close> embeds a literal of
  the source. \<open>String.prototype.trim\<close> strips the ECMAScript WhiteSpace and
  LineTerminator code points from both ends: TAB, LF, VT, FF, CR, SP, NBSP, U+1680,
  U+2000..U+200A, U+2028, U+2029, U+202F, U+205F, U+3000 and U+FEFF.
\<close>

type_synonym jsstring = "nat list"

definition js :: "string \<Rightarrow> jsstring" where
  "js s = map of_char s"

definition isWhiteSpace :: "nat \<Rightarrow> bool" where
  "isWhiteSpace c =
     (c = 9 \<or> c = 10 \<or> c = 11 \<or> c = 12 \<or> c = 13 \<or> c = 32 \<or> c = 160 \<or> c = 5760
      \<or> (8192 \<le> c \<and> c \<le> 8202) \<or> c = 8232 \<or> c = 8233 \<or> c = 8239 \<or> c = 8287
      \<or> c = 12288 \<or> c = 65279)"

definition trim :: "jsstring \<Rightarrow> jsstring" where
  "trim s = rev (dropWhile isWhiteSpace (rev (dropWhile isWhiteSpace s)))"

text \<open>
  The parsed JSON reply of the API: \<open>success\<close> is the truthiness of
  \<^verbatim>\<open>data.success\<close>, \<open>error\<close> the optional \<^verbatim>\<open>data.error\<close>. \<open>Threw\<close> stands for
  every way the \<^verbatim>\<open>try\<close> block is left by an exception (\<^verbatim>\<open>fetch\<close> rejects,
  \<^verbatim>\<open>response.json()\<close> rejects).
\<close>

record api_reply =
  success :: bool
  error :: "jsstring option"

datatype 'a fetch_outcome = Threw | Json 'a

text \<open>\<^verbatim>\<open>data.error || fallback\<close>: a missing or empty message is falsy.\<close>

definition or_default :: "jsstring option \<Rightarrow> jsstring \<Rightarrow> jsstring" where
  "or_default e d = (case e of None \<Rightarrow> d | Some m \<Rightarrow> if m = [] then d else m)"

datatype endpoint = Api_cameras | Api_alert_acknowledge int

datatype json_body =
    Add_camera_body jsstring jsstring jsstring
  | Acknowledge_body jsstring

datatype http_request = POST endpoint json_body

datatype toast_type = Success | Danger | Warning | Info

text \<open>
  What a handler does to the outside, in order: a toast of \<^verbatim>\<open>showNotification\<close>, a
  \<^verbatim>\<open>fetch\<close>, a console line, the button spinner of \<^verbatim>\<open>showButtonLoading\<close>, the modal
  and form calls of \<^verbatim>\<open>addCamera\<close>, and its \<^verbatim>\<open>setTimeout(loadCameras, 1000)\<close>.
\<close>

datatype ui_effect =
    Notify jsstring toast_type
  | Fetch http_request
  | ConsoleLog
  | ConsoleError
  | ButtonLoading bool
  | ModalHide
  | FormReset
  | ToggleSourceInput
  | SetTimeout_loadCameras

subsection \<open>addCamera (the add-camera form)\<close>

record camera_form =
  cameraName :: jsstring
  cameraLocation :: jsstring
  cameraSourceType :: jsstring
  cameraRtsp :: jsstring

text \<open>
  \<^verbatim>\<open>addCamera()\<close> reads the four form values, validates, and only then posts.
  \<open>modalOpen\<close> says whether \<^verbatim>\<open>bootstrap.Modal.getInstance\<close> returns an instance; on
  \<^verbatim>\<open>null\<close> the call \<^verbatim>\<open>modal.hide()\<close> throws inside the \<^verbatim>\<open>try\<close>. The
  \<^verbatim>\<open>finally\<close> block restores the button on every path that entered the
  \<^verbatim>\<open>try\<close>.
\<close>

definition addCamera :: "camera_form \<Rightarrow> api_reply fetch_outcome \<Rightarrow> bool \<Rightarrow> ui_effect list" where
  "addCamera form outcome modalOpen =
     (let name = trim (cameraName form);
          location = trim (cameraLocation form);
          sourceType = cameraSourceType form;
          rtspUrl = trim (cameraRtsp form)
      in if name = [] then [Notify (js ''Please enter camera name'') Warning]
         else if sourceType \<noteq> js ''webcam'' \<and> rtspUrl = []
           then [Notify (js ''Please enter camera source'') Warning]
         else
           [ButtonLoading True,
            Fetch (POST Api_cameras
              (Add_camera_body name location
                 (if sourceType = js ''webcam'' then js ''0'' else rtspUrl)))]
           @ (case outcome of
                Threw \<Rightarrow>
                  [ConsoleError, Notify (js ''Failed to add camera. Check your connection.'') Danger]
              | Json data \<Rightarrow>
                  if success data then
                    Notify (js ''Camera added successfully!'') Success #
                    (if modalOpen
                       then [ModalHide, FormReset, ToggleSourceInput, SetTimeout_loadCameras]
                       else [ConsoleError,
                             Notify (js ''Failed to add camera. Check your connection.'') Danger])
                  else [Notify (or_default (error data) (js ''Failed to add camera'')) Danger])
           @ [ButtonLoading False])"

text \<open>The requests a trace issues, in order.\<close>

fun requests :: "ui_effect list \<Rightarrow> http_request list" where
  "requests [] = []"
| "requests (Fetch r # es) = r # requests es"
| "requests (e # es) = requests es"

subsection \<open>The alerts panel\<close>

text \<open>
  The element \<^verbatim>\<open>#alertsList\<close> holds the page's static markup, the paragraph
  \<^verbatim>\<open>No active alerts\<close>, or the items \<^verbatim>\<open>renderAlerts\<close> built. An item is one
  \<^verbatim>\<open><div class="alert-item" id="alert-${alert.id}">\<close>: \<open>node_key\<close> is the identity
  of the DOM node (a timer keeps a reference to the node, not to its id), \<open>node_src\<close> the
  alert it was built from, \<open>node_label\<close> the text \<^verbatim>\<open>formatDateTime\<close> gave at
  that moment, and \<open>node_styled\<close> whether \<^verbatim>\<open>removeAlertFromUI\<close> has set its inline
  fade-out style.
\<close>

record alert_node =
  node_key :: nat
  node_src :: alert
  node_label :: string
  node_styled :: bool

datatype alerts_markup =
    Static_markup bool
  | No_active_alerts
  | Items "alert_node list"

datatype page_title = Title_initial | Title_alerts nat | Title_default

record dashboard =
  alerts :: "alert list"
  alertsList :: alerts_markup
  nextNode :: nat
  alertCount :: nat
  title :: page_title
  timers :: "(nat \<times> int) list"
  effects :: "ui_effect list"

definition showNotification :: "jsstring \<Rightarrow> toast_type \<Rightarrow> dashboard \<Rightarrow> dashboard" where
  "showNotification message type s = s\<lparr>effects := effects s @ [Notify message type]\<rparr>"

definition updateAlertCount :: "dashboard \<Rightarrow> dashboard" where
  "updateAlertCount s =
     (let count = length (alerts s)
      in s\<lparr>alertCount := count,
           title := (if count > 0 then Title_alerts count else Title_default)\<rparr>)"

text \<open>
  \<^verbatim>\<open>alertsList.innerHTML.includes('No active alerts')\<close>. The phrase is letters and
  blanks only, so inside the items it can only sit in one of the interpolated
  texts: the camera name, the object class or the location (\<^verbatim>\<open>escapeHtml\<close> leaves
  letters and blanks alone). For the page's static markup the flag of
  \<open>Static_markup\<close> answers.
\<close>

definition nodeIncludes :: "string \<Rightarrow> alert_node \<Rightarrow> bool" where
  "nodeIncludes phrase n =
     (sublist phrase (camera_name (node_src n))
      \<or> sublist phrase (alert_object_class (node_src n))
      \<or> sublist phrase
           (if location (node_src n) = [] then ''Unknown location'' else location (node_src n)))"

fun includesNoActiveAlerts :: "alerts_markup \<Rightarrow> bool" where
  "includesNoActiveAlerts (Static_markup b) = b"
| "includesNoActiveAlerts No_active_alerts = True"
| "includesNoActiveAlerts (Items ns) = list_ex (nodeIncludes ''No active alerts'') ns"

text \<open>
  \<^verbatim>\<open>renderAlerts()\<close>. \<open>fmt\<close> is \<^verbatim>\<open>formatDateTime\<close> at the time of the call.
  \<open>unchanged\<close> is the outcome of the string comparison of \<^verbatim>\<open>alertsList.innerHTML\<close>
  with the new markup, \<open>True\<close> when the two are equal: the browser's serialisation
  of the container is an input here, as the reply of a request is. With equal strings
  nothing is written and the nodes stay; otherwise the container gets fresh nodes.
  With no alerts the function returns before the comparison.
\<close>

fun buildItems :: "(int \<Rightarrow> string) \<Rightarrow> nat \<Rightarrow> alert list \<Rightarrow> alert_node list" where
  "buildItems fmt k [] = []"
| "buildItems fmt k (a # as) =
     \<lparr>node_key = k, node_src = a, node_label = fmt (created_at a), node_styled = False\<rparr>
       # buildItems fmt (Suc k) as"

definition renderAlerts :: "(int \<Rightarrow> string) \<Rightarrow> bool \<Rightarrow> dashboard \<Rightarrow> dashboard" where
  "renderAlerts fmt unchanged s =
     (if alerts s = [] then
        (if includesNoActiveAlerts (alertsList s) then s
         else s\<lparr>alertsList := No_active_alerts\<rparr>)
      else if unchanged then s
      else s\<lparr>alertsList := Items (buildItems fmt (nextNode s) (alerts s)),
             nextNode := nextNode s + length (alerts s)\<rparr>)"

text \<open>\<^verbatim>\<open>document.getElementById(`alert-${alertId}`)\<close>: the first item with that id.\<close>

fun getAlertElement :: "int \<Rightarrow> alerts_markup \<Rightarrow> alert_node option" where
  "getAlertElement alertId (Items ns) = find (\<lambda>n. alert_id (node_src n) = alertId) ns"
| "getAlertElement alertId m = None"

fun styleNode :: "nat \<Rightarrow> alerts_markup \<Rightarrow> alerts_markup" where
  "styleNode k (Items ns) =
     Items (map (\<lambda>n. if node_key n = k then n\<lparr>node_styled := True\<rparr> else n) ns)"
| "styleNode k m = m"

text \<open>\<^verbatim>\<open>alertElement.remove()\<close>: detaches that node; a node no longer attached stays so.\<close>

fun removeNode :: "nat \<Rightarrow> alerts_markup \<Rightarrow> alerts_markup" where
  "removeNode k (Items ns) = Items (filter (\<lambda>n. node_key n \<noteq> k) ns)"
| "removeNode k m = m"

text \<open>
  \<^verbatim>\<open>removeAlertFromUI(alertId)\<close>: when the element exists it is faded out and a
  300 ms timer is set; \<open>timers\<close> keeps the pending callbacks as (node, alert id).
  Without the element nothing happens.
\<close>

definition removeAlertFromUI :: "int \<Rightarrow> dashboard \<Rightarrow> dashboard" where
  "removeAlertFromUI alertId s =
     (case getAlertElement alertId (alertsList s) of
        None \<Rightarrow> s
      | Some alertElement \<Rightarrow>
          s\<lparr>alertsList := styleNode (node_key alertElement) (alertsList s),
            timers := timers s @ [(node_key alertElement, alertId)]\<rparr>)"

text \<open>
  The body of the timer's callback. It calls \<^verbatim>\<open>renderAlerts()\<close> only with an empty
  list, where \<^verbatim>\<open>renderAlerts\<close> returns before it compares any markup, so the
  comparison's outcome passed here is never read.
\<close>

definition removeAlertTimeout :: "(int \<Rightarrow> string) \<Rightarrow> nat \<times> int \<Rightarrow> dashboard \<Rightarrow> dashboard" where
  "removeAlertTimeout fmt t s =
     (let s1 = s\<lparr>alertsList := removeNode (fst t) (alertsList s)\<rparr>;
          s2 = s1\<lparr>alerts := filter (\<lambda>a. alert_id a \<noteq> snd t) (alerts s1)\<rparr>;
          s3 = updateAlertCount s2
      in if alerts s3 = [] then renderAlerts fmt False s3 else s3)"

text \<open>The event loop runs a pending timer: it leaves the queue and its callback runs.\<close>

definition fireTimer :: "(int \<Rightarrow> string) \<Rightarrow> nat \<times> int \<Rightarrow> dashboard \<Rightarrow> dashboard" where
  "fireTimer fmt t s = removeAlertTimeout fmt t (s\<lparr>timers := remove1 t (timers s)\<rparr>)"

text \<open>
  \<^verbatim>\<open>acknowledgeAlert(alertId)\<close>: one \<^verbatim>\<open>fetch\<close>, then the branch on the reply.
  The state is the dashboard at the moment the reply is handled; the request is the
  first effect of the call.
\<close>

definition acknowledgeAlert :: "int \<Rightarrow> api_reply fetch_outcome \<Rightarrow> dashboard \<Rightarrow> dashboard" where
  "acknowledgeAlert alertId outcome s =
     (let s1 = s\<lparr>effects := effects s @
                 [Fetch (POST (Api_alert_acknowledge alertId) (Acknowledge_body (js ''Admin'')))]\<rparr>
      in case outcome of
           Threw \<Rightarrow>
             showNotification (js ''Failed to acknowledge alert'') Danger
               (s1\<lparr>effects := effects s1 @ [ConsoleError]\<rparr>)
         | Json data \<Rightarrow>
             if success data then
               showNotification (js ''Alert acknowledged'') Success (removeAlertFromUI alertId s1)
             else
               showNotification (or_default (error data) (js ''Failed to acknowledge alert''))
                 Danger s1)"

text \<open>The handler of the socket event \<^verbatim>\<open>alert_acknowledged\<close> with \<^verbatim>\<open>{alert_id}\<close>.\<close>

definition on_alert_acknowledged :: "int \<Rightarrow> dashboard \<Rightarrow> dashboard" where
  "on_alert_acknowledged data_alert_id s =
     removeAlertFromUI data_alert_id (s\<lparr>effects := effects s @ [ConsoleLog]\<rparr>)"

text \<open>
  The list and the panel agree when every alert of \<open>alerts\<close> has its element in
  \<^verbatim>\<open>#alertsList\<close>, as it has after each \<^verbatim>\<open>renderAlerts\<close> that writes the panel.
\<close>

definition rendered :: "dashboard \<Rightarrow> bool" where
  "rendered s = list_all (\<lambda>a. getAlertElement (alert_id a) (alertsList s) \<noteq> None) (alerts s)"

text \<open>
  The callbacks a handler has set, run in the order they were set: \<open>s\<close> is the state
  before the handler, \<open>s1\<close> the state it left.
\<close>

definition runNewTimers :: "(int \<Rightarrow> string) \<Rightarrow> dashboard \<Rightarrow> dashboard \<Rightarrow> dashboard" where
  "runNewTimers fmt s s1 = fold (fireTimer fmt) (drop (length (timers s)) (timers s1)) s1"

fun nodeKeys :: "alerts_markup \<Rightarrow> nat list" where
  "nodeKeys (Items ns) = map node_key ns"
| "nodeKeys m = []"

section \<open>camera-view.js\<close>

subsection \<open>CameraView\<close>

record camera =
  cam_id :: int
  cam_name :: string
  cam_location :: string
  cam_status :: string

text \<open>
  The fields the constructor sets, and two facts of the card's DOM that
  \<^verbatim>\<open>refreshStream\<close> writes: the \<^verbatim>\<open>?t=\<close> stamp of the image's \<^verbatim>\<open>src\<close> and the
  class \<^verbatim>\<open>loading\<close> of the feed. \<open>element\<close> and \<open>imgElement\<close> hold the key of the
  card node, or \<open>None\<close> for \<^verbatim>\<open>null\<close>.
\<close>

record camera_view =
  camera :: camera
  element :: "nat option"
  imgElement :: "nat option"
  isFullscreen :: bool
  streamActive :: bool
  retryCount :: nat
  imgStamp :: int
  feedLoading :: bool

definition new_CameraView :: "camera \<Rightarrow> camera_view" where
  "new_CameraView c =
     \<lparr>camera = c, element = None, imgElement = None, isFullscreen = False,
      streamActive = False, retryCount = 0, imgStamp = 0, feedLoading = False\<rparr>"

text \<open>
  \<^verbatim>\<open>createElement()\<close> builds the card (node \<open>key\<close>) from \<^verbatim>\<open>getCardHTML()\<close>, whose
  image carries \<^verbatim>\<open>?t=${Date.now()}\<close>; \<^verbatim>\<open>attachEventListeners()\<close> finds that image.
\<close>

definition createElement :: "int \<Rightarrow> nat \<Rightarrow> camera_view \<Rightarrow> camera_view" where
  "createElement now key v = v\<lparr>element := Some key, imgElement := Some key, imgStamp := now\<rparr>"

definition refreshStream :: "int \<Rightarrow> camera_view \<Rightarrow> camera_view" where
  "refreshStream now v =
     (if imgElement v \<noteq> None then v\<lparr>imgStamp := now, feedLoading := True\<rparr> else v)"

subsection \<open>The document and CameraViewManager\<close>

text \<open>
  The children of \<^verbatim>\<open>#cameraGrid\<close> are camera cards and blocks of markup written
  through \<^verbatim>\<open>innerHTML\<close>. \<open>cameraGrid\<close> is \<open>None\<close> when the document has no such
  element. \<open>nextCard\<close> numbers the nodes \<^verbatim>\<open>document.createElement\<close> makes.
\<close>

datatype grid_markup = Loading_spinner | No_cameras | Connection_error

datatype grid_child = Card nat | Markup grid_markup

datatype console_entry = Error_grid_not_found | Warn_camera_exists int

record document =
  cameraGrid :: "grid_child list option"
  nextCard :: nat
  console :: "console_entry list"

text \<open>
  \<open>cameraViews\<close> is the \<^verbatim>\<open>Map\<close> in insertion order; \<open>gridContainer\<close> says whether
  the manager's reference to the grid is non-null.
\<close>

record manager =
  cameraViews :: "(int \<times> camera_view) list"
  gridContainer :: bool

definition new_CameraViewManager :: manager where
  "new_CameraViewManager = \<lparr>cameraViews = [], gridContainer = False\<rparr>"

definition initialize :: "manager \<times> document \<Rightarrow> manager \<times> document" where
  "initialize md =
     (case md of (m, d) \<Rightarrow>
        (case cameraGrid d of
           None \<Rightarrow> (m\<lparr>gridContainer := False\<rparr>, d\<lparr>console := console d @ [Error_grid_not_found]\<rparr>)
         | Some cs \<Rightarrow> (m\<lparr>gridContainer := True\<rparr>, d)))"

text \<open>\<^verbatim>\<open>element.remove()\<close> of a card.\<close>

definition detach :: "nat \<Rightarrow> document \<Rightarrow> document" where
  "detach key d = d\<lparr>cameraGrid := map_option (filter (\<lambda>c. c \<noteq> Card key)) (cameraGrid d)\<rparr>"

text \<open>The effect of \<^verbatim>\<open>CameraView.destroy()\<close> on the document.\<close>

definition destroy :: "camera_view \<Rightarrow> document \<Rightarrow> document" where
  "destroy v d = (case element v of None \<Rightarrow> d | Some key \<Rightarrow> detach key d)"

definition CameraViewManager_addCamera ::
    "int \<Rightarrow> camera \<Rightarrow> manager \<times> document \<Rightarrow> camera_view option \<times> manager \<times> document" where
  "CameraViewManager_addCamera now c md =
     (case md of (m, d) \<Rightarrow>
        if map_of (cameraViews m) (cam_id c) \<noteq> None then
          (None, m, d\<lparr>console := console d @ [Warn_camera_exists (cam_id c)]\<rparr>)
        else
          (let key = nextCard d;
               cameraView = createElement now key (new_CameraView c);
               d1 = d\<lparr>nextCard := Suc key\<rparr>;
               m1 = m\<lparr>cameraViews := AList.update (cam_id c) cameraView (cameraViews m)\<rparr>;
               d2 = (if gridContainer m1
                     then d1\<lparr>cameraGrid := map_option (\<lambda>cs. cs @ [Card key]) (cameraGrid d1)\<rparr>
                     else d1)
           in (Some cameraView, m1, d2)))"

definition CameraViewManager_removeCamera :: "int \<Rightarrow> manager \<times> document \<Rightarrow> manager \<times> document" where
  "CameraViewManager_removeCamera cameraId md =
     (case md of (m, d) \<Rightarrow>
        (case map_of (cameraViews m) cameraId of
           None \<Rightarrow> (m, d)
         | Some cameraView \<Rightarrow>
             (m\<lparr>cameraViews := AList.delete cameraId (cameraViews m)\<rparr>, destroy cameraView d)))"

definition CameraViewManager_clearAllCameras :: "manager \<times> document \<Rightarrow> manager \<times> document" where
  "CameraViewManager_clearAllCameras md =
     (case md of (m, d) \<Rightarrow>
        (let d1 = fold (\<lambda>kv. destroy (snd kv)) (cameraViews m) d;
             m1 = m\<lparr>cameraViews := []\<rparr>
         in (m1, if gridContainer m1
                 then d1\<lparr>cameraGrid := map_option (\<lambda>cs. []) (cameraGrid d1)\<rparr>
                 else d1)))"

text \<open>
  \<^verbatim>\<open>CameraViewManager.refreshAllCameras()\<close>; \<open>now\<close> is the reading of
  \<^verbatim>\<open>Date.now()\<close> during the call.
\<close>

definition CameraViewManager_refreshAllCameras :: "int \<Rightarrow> manager \<Rightarrow> manager" where
  "CameraViewManager_refreshAllCameras now m =
     m\<lparr>cameraViews := map (\<lambda>kv. (fst kv, refreshStream now (snd kv))) (cameraViews m)\<rparr>"

text \<open>The calls a page makes on its manager, and a run of them.\<close>

datatype manager_call =
    AddCamera int camera
  | RemoveCamera int
  | ClearAllCameras
  | RefreshAllCameras int

fun call :: "manager_call \<Rightarrow> manager \<times> document \<Rightarrow> manager \<times> document" where
  "call (AddCamera now c) md = snd (CameraViewManager_addCamera now c md)"
| "call (RemoveCamera cameraId) md = CameraViewManager_removeCamera cameraId md"
| "call ClearAllCameras md = CameraViewManager_clearAllCameras md"
| "call (RefreshAllCameras now) md = (CameraViewManager_refreshAllCameras now (fst md), snd md)"

definition calls :: "manager_call list \<Rightarrow> manager \<times> document \<Rightarrow> manager \<times> document" where
  "calls cs md = fold call cs md"

text \<open>The cards attached to the grid, and the cards of the views in the map.\<close>

definition gridCards :: "document \<Rightarrow> nat list" where
  "gridCards d =
     (case cameraGrid d of
        None \<Rightarrow> []
      | Some cs \<Rightarrow> List.map_filter (\<lambda>c. case c of Card k \<Rightarrow> Some k | Markup m \<Rightarrow> None) cs)"

definition viewCards :: "manager \<Rightarrow> nat list" where
  "viewCards m = List.map_filter (\<lambda>kv. element (snd kv)) (cameraViews m)"

text \<open>
  One view per camera id: the keys of the map are distinct and each view sits under
  the id of its own camera. The map agrees with the created views when every view
  in it has its card, no two views share a card, and the cards in the grid are the
  cards of the map's views in the map's order (none when the manager has no grid).
\<close>

definition oneViewPerCamera :: "manager \<Rightarrow> bool" where
  "oneViewPerCamera m =
     (distinct (map fst (cameraViews m))
      \<and> list_all (\<lambda>kv. cam_id (camera (snd kv)) = fst kv) (cameraViews m))"

definition consistent :: "manager \<times> document \<Rightarrow> bool" where
  "consistent md =
     (case md of (m, d) \<Rightarrow>
        list_all (\<lambda>kv. element (snd kv) \<noteq> None) (cameraViews m)
        \<and> distinct (viewCards m)
        \<and> gridCards d = (if gridContainer m then viewCards m else []))"

subsection \<open>refreshAllCameras of dashboard.js\<close>

text \<open>
  The globals \<^verbatim>\<open>cameraViewManager\<close> (null until \<^verbatim>\<open>initializeApp\<close>) and the
  document, with the toasts shown. \<^verbatim>\<open>grid.innerHTML = ...\<close> on a missing grid is a
  TypeError; what the function did before it stays done.
\<close>

record page =
  cameraViewManager :: "manager option"
  doc :: document
  toasts :: "ui_effect list"

datatype js_error = TypeError

definition refreshAllCameras :: "int \<Rightarrow> page \<Rightarrow> js_error option \<times> page" where
  "refreshAllCameras now p =
     (let p1 = (case cameraViewManager p of
                  None \<Rightarrow> p
                | Some m \<Rightarrow>
                    p\<lparr>cameraViewManager := Some (CameraViewManager_refreshAllCameras now m),
                      toasts := toasts p @ [Notify (js ''Refreshing all cameras...'') Info]\<rparr>)
      in case cameraGrid (doc p1) of
           None \<Rightarrow> (Some TypeError, p1)
         | Some grid \<Rightarrow>
             (None, p1\<lparr>doc := (doc p1)\<lparr>cameraGrid := Some [Markup Connection_error]\<rparr>\<rparr>))"

section \<open>The alert lifecycle coordinator\<close>

text \<open>
  The classifier, the dedup window and the alert store run on the server. The
  dashboard above reaches them only through \<^verbatim>\<open>/api/alerts\<close> and the socket
  events; their definitions here follow sections 3 to 5 of the specification.
\<close>

subsection \<open>Alert Classifier\<close>

record detection =
  det_camera_id :: int
  det_object_class :: string
  det_confidence :: real
  det_bounding_box :: "(int \<times> int \<times> int \<times> int) option"
  captured_at :: int
  frame_reference :: string

text \<open>
  The configuration constants: the minimum confidence, the high-confidence
  threshold, the cooldown interval and the base severity of each class.
\<close>

record config =
  min_confidence :: real
  high_confidence :: real
  cooldown_interval :: int
  base_severity :: "string \<Rightarrow> severity"

record classification =
  cls_severity :: severity
  accept :: bool

fun escalate :: "severity \<Rightarrow> severity" where
  "escalate LOW = MEDIUM"
| "escalate MEDIUM = HIGH"
| "escalate HIGH = HIGH"

text \<open>
  Modelled from the spec: \<^verbatim>\<open>classify(detection)\<close> of section 4.1, which is not among
  the sources. Confidence below the minimum is rejected; the severity is the class's
  base severity, one tier up when the confidence exceeds the high-confidence
  threshold, capped at HIGH.
\<close>

definition classify :: "config \<Rightarrow> detection \<Rightarrow> classification" where
  "classify cfg d =
     \<lparr>cls_severity =
        (if det_confidence d > high_confidence cfg
         then escalate (base_severity cfg (det_object_class d))
         else base_severity cfg (det_object_class d)),
      accept = (\<not> det_confidence d < min_confidence cfg)\<rparr>"

subsection \<open>Dedup window\<close>

type_synonym dedup_window = "int \<times> string \<rightharpoonup> int"

text \<open>
  Modelled from the spec: \<^verbatim>\<open>shouldEmit(camera_id, object_class, now)\<close> and
  \<^verbatim>\<open>record(camera_id, object_class, now)\<close> of section 4.2, which are not among the
  sources. Emit iff the pair has no record or \<open>now - last_emitted_at\<close> is at least the
  cooldown; on emit the time is recorded in the same step.
\<close>

definition shouldEmit :: "config \<Rightarrow> dedup_window \<Rightarrow> int \<Rightarrow> string \<Rightarrow> int \<Rightarrow> bool" where
  "shouldEmit cfg w camera_id object_class now =
     (case w (camera_id, object_class) of
        None \<Rightarrow> True
      | Some last_emitted_at \<Rightarrow> now - last_emitted_at \<ge> cooldown_interval cfg)"

definition record_emission :: "dedup_window \<Rightarrow> int \<Rightarrow> string \<Rightarrow> int \<Rightarrow> dedup_window" where
  "record_emission w camera_id object_class now = w((camera_id, object_class) \<mapsto> now)"

definition check_and_record ::
    "config \<Rightarrow> dedup_window \<Rightarrow> int \<Rightarrow> string \<Rightarrow> int \<Rightarrow> bool \<times> dedup_window" where
  "check_and_record cfg w camera_id object_class now =
     (if shouldEmit cfg w camera_id object_class now
      then (True, record_emission w camera_id object_class now)
      else (False, w))"

subsection \<open>Alert Store\<close>

text \<open>The store keeps its alerts newest first and the next id to assign.\<close>

record alert_store =
  stored :: "alert list"
  next_id :: int

definition empty_store :: alert_store where
  "empty_store = \<lparr>stored = [], next_id = 1\<rparr>"

record alert_fields =
  f_camera_id :: int
  f_camera_name :: string
  f_object_class :: string
  f_confidence :: real
  f_severity :: severity
  f_location :: string
  f_snapshot_reference :: string

text \<open>
  Modelled from the spec: \<^verbatim>\<open>create\<close>, \<^verbatim>\<open>get\<close>, \<^verbatim>\<open>listPending\<close> and
  \<^verbatim>\<open>acknowledge\<close> of section 4.3, which are not among the sources. \<^verbatim>\<open>create\<close>
  assigns the next id, sets PENDING and \<open>created_at = now\<close>; \<^verbatim>\<open>acknowledge\<close> answers
  with the committed alert, with AlreadyAcknowledged and the first acknowledger and
  time, or with NotFound.
\<close>

definition create :: "alert_store \<Rightarrow> alert_fields \<Rightarrow> int \<Rightarrow> alert \<times> alert_store" where
  "create s f now =
     (let a = \<lparr>alert_id = next_id s, alert_camera_id = f_camera_id f,
                camera_name = f_camera_name f, alert_object_class = f_object_class f,
                alert_confidence = f_confidence f, alert_severity = f_severity f,
                location = f_location f, snapshot_reference = f_snapshot_reference f,
                created_at = now, status = PENDING,
                acknowledged_by = None, acknowledged_at = None\<rparr>
      in (a, s\<lparr>stored := a # stored s, next_id := next_id s + 1\<rparr>))"

definition get :: "alert_store \<Rightarrow> int \<Rightarrow> alert option" where
  "get s i = find (\<lambda>a. alert_id a = i) (stored s)"

definition listPending :: "alert_store \<Rightarrow> alert list" where
  "listPending s = filter (\<lambda>a. status a = PENDING) (stored s)"

datatype ack_result =
    Acknowledged alert
  | AlreadyAcknowledged "string option" "int option"
  | NotFound

definition acknowledge :: "alert_store \<Rightarrow> int \<Rightarrow> string \<Rightarrow> int \<Rightarrow> ack_result \<times> alert_store" where
  "acknowledge s i admin_name now =
     (case get s i of
        None \<Rightarrow> (NotFound, s)
      | Some a \<Rightarrow>
          (case status a of
             ACKNOWLEDGED \<Rightarrow> (AlreadyAcknowledged (acknowledged_by a) (acknowledged_at a), s)
           | PENDING \<Rightarrow>
               (let commit = (\<lambda>b. b\<lparr>status := ACKNOWLEDGED, acknowledged_by := Some admin_name,
                                         acknowledged_at := Some now\<rparr>)
                in (Acknowledged (commit a),
                    s\<lparr>stored := map (\<lambda>b. if alert_id b = i then commit b else b) (stored s)\<rparr>))))"

text \<open>The store's mutating calls, and a run of them from a given store.\<close>

datatype store_call = Create alert_fields int | Acknowledge int string int

fun store_step :: "store_call \<Rightarrow> alert_store \<Rightarrow> alert_store" where
  "store_step (Create f now) s = snd (create s f now)"
| "store_step (Acknowledge i admin_name now) s = snd (acknowledge s i admin_name now)"

definition store_run :: "store_call list \<Rightarrow> alert_store \<Rightarrow> alert_store" where
  "store_run cs s = fold store_step cs s"

subsection \<open>Ingest\<close>

text \<open>
  Modelled from the spec: the data flow of section 2, Detection Source to Alert
  Classifier to Dedup Window to Alert Store, which is not among the sources. The
  detection's \<open>captured_at\<close> is the \<open>now\<close> of the window and of the store;
  \<open>cams\<close> is the camera collaborator's name and location of a camera id.
\<close>

record coordinator =
  window :: dedup_window
  store :: alert_store

definition ingest :: "config \<Rightarrow> (int \<Rightarrow> string \<times> string) \<Rightarrow> detection \<Rightarrow> coordinator \<Rightarrow> coordinator" where
  "ingest cfg cams d st =
     (let c = classify cfg d
      in if \<not> accept c then st
         else
           (case check_and_record cfg (window st) (det_camera_id d) (det_object_class d)
                   (captured_at d) of
              (False, w) \<Rightarrow> st\<lparr>window := w\<rparr>
            | (True, w) \<Rightarrow>
                st\<lparr>window := w,
                   store := snd (create (store st)
                     \<lparr>f_camera_id = det_camera_id d,
                      f_camera_name = fst (cams (det_camera_id d)),
                      f_object_class = det_object_class d,
                      f_confidence = det_confidence d,
                      f_severity = cls_severity c,
                      f_location = snd (cams (det_camera_id d)),
                      f_snapshot_reference = frame_reference d\<rparr>
                     (captured_at d))\<rparr>))"

definition ingest_all ::
    "config \<Rightarrow> (int \<Rightarrow> string \<times> string) \<Rightarrow> detection list \<Rightarrow> coordinator \<Rightarrow> coordinator" where
  "ingest_all cfg cams ds st = fold (ingest cfg cams) ds st"

text \<open>An accepted detection on the pair \<open>(camera_id, object_class)\<close>.\<close>

definition on_pair :: "config \<Rightarrow> int \<Rightarrow> string \<Rightarrow> detection \<Rightarrow> bool" where
  "on_pair cfg camera_id object_class d =
     (det_camera_id d = camera_id \<and> det_object_class d = object_class \<and> accept (classify cfg d))"

text \<open>The alerts the store holds for one camera and class.\<close>

definition alerts_of :: "int \<Rightarrow> string \<Rightarrow> coordinator \<Rightarrow> alert list" where
  "alerts_of camera_id object_class st =
     filter (\<lambda>a. alert_camera_id a = camera_id \<and> alert_object_class a = object_class)
       (stored (store st))"

section \<open>Invariants\<close>

text \<open>
  The manager's invariant across its calls: one view per camera, the map agreeing
  with the grid, every card numbered below \<open>nextCard\<close>, and a grid behind a
  non-null \<open>gridContainer\<close>.
\<close>

definition manager_inv :: "manager \<times> document \<Rightarrow> bool" where
  "manager_inv md =
     (case md of (m, d) \<Rightarrow>
        oneViewPerCamera m \<and> consistent (m, d)
        \<and> list_all (\<lambda>k. k < nextCard d) (viewCards m)
        \<and> (gridContainer m \<longrightarrow> cameraGrid d \<noteq> None))"

text \<open>
  The store's invariant: ids strictly descending from the head (so distinct, newest
  first) and all below \<open>next_id\<close>.
\<close>

definition store_inv :: "alert_store \<Rightarrow> bool" where
  "store_inv s =
     (sorted_wrt (\<lambda>a b. alert_id b < alert_id a) (stored s)
      \<and> list_all (\<lambda>a. alert_id a < next_id s) (stored s))"

text \<open>How many alerts a run of store calls creates.\<close>

fun created :: "store_call list \<Rightarrow> nat" where
  "created [] = 0"
| "created (Create f now # cs) = Suc (created cs)"
| "created (Acknowledge i admin_name now # cs) = created cs"

text \<open>The \<open>now\<close> of each creation of a run, in call order.\<close>

fun create_times :: "store_call list \<Rightarrow> int list" where
  "create_times [] = []"
| "create_times (Create f now # cs) = now # create_times cs"
| "create_times (Acknowledge i admin_name now # cs) = create_times cs"

section \<open>Example data\<close>

definition sample_alert :: "int \<Rightarrow> alert" where
  "sample_alert i =
     \<lparr>alert_id = i, alert_camera_id = 1, camera_name = ''Gate'',
      alert_object_class = ''knife'', alert_confidence = 0.95, alert_severity = HIGH,
      location = ''North'', snapshot_reference = ''snap.jpg'', created_at = 100,
      status = PENDING, acknowledged_by = None, acknowledged_at = None\<rparr>"

definition sample_node :: "nat \<Rightarrow> int \<Rightarrow> alert_node" where
  "sample_node k i =
     \<lparr>node_key = k, node_src = sample_alert i, node_label = ''Just now'', node_styled = False\<rparr>"

text \<open>A dashboard showing the pending alerts 5 and 7.\<close>

definition sample_dashboard :: dashboard where
  "sample_dashboard =
     \<lparr>alerts = [sample_alert 5, sample_alert 7],
      alertsList = Items [sample_node 0 5, sample_node 1 7],
      nextNode = 2, alertCount = 2, title = Title_alerts 2, timers = [], effects = []\<rparr>"

definition sample_reply :: "bool \<Rightarrow> api_reply" where
  "sample_reply ok = \<lparr>success = ok, error = (if ok then None else Some (js ''Alert not found''))\<rparr>"

definition sample_form :: "jsstring \<Rightarrow> camera_form" where
  "sample_form name =
     \<lparr>cameraName = name, cameraLocation = js ''North'', cameraSourceType = js ''rtsp'',
      cameraRtsp = js ''rtsp://cam/1''\<rparr>"

definition sample_camera :: "int \<Rightarrow> camera" where
  "sample_camera i =
     \<lparr>cam_id = i, cam_name = ''Gate'', cam_location = ''North'', cam_status = ''active''\<rparr>"

definition sample_document :: document where
  "sample_document = \<lparr>cameraGrid = Some [Markup Loading_spinner], nextCard = 0, console = []\<rparr>"

text \<open>A page whose manager shows camera 1 in the grid.\<close>

definition sample_page :: page where
  "sample_page =
     (let md = calls [AddCamera 1000 (sample_camera 1)]
                 (initialize (new_CameraViewManager, sample_document))
      in \<lparr>cameraViewManager = Some (fst md), doc = snd md, toasts = []\<rparr>)"

text \<open>
  The example of the specification: a 30 s cooldown, a minimum confidence of 0.5, a
  high-confidence threshold of 0.9, firearms HIGH and everything else MEDIUM.
\<close>

definition sample_config :: config where
  "sample_config =
     \<lparr>min_confidence = 0.5, high_confidence = 0.9, cooldown_interval = 30,
      base_severity = (\<lambda>c. if c = ''gun'' then HIGH else MEDIUM)\<rparr>"

definition sample_detection :: "int \<Rightarrow> real \<Rightarrow> detection" where
  "sample_detection t conf =
     \<lparr>det_camera_id = 1, det_object_class = ''gun'', det_confidence = conf,
      det_bounding_box = None, captured_at = t, frame_reference = ''frame.jpg''\<rparr>"

definition sample_cams :: "int \<Rightarrow> string \<times> string" where
  "sample_cams i = (''Gate'', ''North'')"

definition sample_fields :: alert_fields where
  "sample_fields =
     \<lparr>f_camera_id = 1, f_camera_name = ''Gate'', f_object_class = ''gun'',
      f_confidence = 0.95, f_severity = HIGH, f_location = ''North'',
      f_snapshot_reference = ''frame.jpg''\<rparr>"

definition empty_coordinator :: coordinator where
  "empty_coordinator = \<lparr>window = Map.empty, store = empty_store\<rparr>"

section \<open>Properties of dashboard.js\<close>

subsection \<open>The add-camera form\<close>

lemma trim_blank:
  assumes "list_all isWhiteSpace s"
  shows "trim s = []"
proof -
  from assms have blank: "dropWhile isWhiteSpace s = []"
    by (simp add: list_all_iff)
  show ?thesis
    unfolding trim_def blank by simp
qed

text \<open>
  C6. A camera name that is empty or made of white space only is rejected before
  anything else happens: the only effect of \<^verbatim>\<open>addCamera\<close> is the warning toast
  \<^verbatim>\<open>Please enter camera name\<close>, and no request is issued. Whatever the form
  holds, every request \<^verbatim>\<open>addCamera\<close> issues is a POST to \<^verbatim>\<open>/api/cameras\<close> whose
  \<open>name\<close> is the trimmed form value and is not empty.
\<close>

theorem addCamera_rejects_blank_name:
  "(list_all isWhiteSpace (cameraName form) \<longrightarrow>
      addCamera form outcome modalOpen = [Notify (js ''Please enter camera name'') Warning]
      \<and> requests (addCamera form outcome modalOpen) = [])
   \<and> (\<forall>r \<in> set (requests (addCamera form outcome modalOpen)).
        \<exists>name location rtsp_url.
          r = POST Api_cameras (Add_camera_body name location rtsp_url)
          \<and> name = trim (cameraName form) \<and> name \<noteq> [])"
  by (auto simp: addCamera_def Let_def trim_blank split: fetch_outcome.splits)

theorem addCamera_rejects_blank_name_witness:
  "list_all isWhiteSpace [32, 9, 160, 12288]
   \<and> addCamera (sample_form [32, 9, 160, 12288]) (Json (sample_reply True)) True
       = [Notify (js ''Please enter camera name'') Warning]
   \<and> requests (addCamera (sample_form [32, 9, 160, 12288]) (Json (sample_reply True)) True) = []
   \<and> requests (addCamera (sample_form (js '' Gate '')) (Json (sample_reply True)) True)
       = [POST Api_cameras (Add_camera_body (js ''Gate'') (js ''North'') (js ''rtsp://cam/1''))]"
proof -
  have blank: "list_all isWhiteSpace [32, 9, 160, 12288]"
    by (simp add: isWhiteSpace_def)
  have name: "cameraName (sample_form [32, 9, 160, 12288]) = [32, 9, 160, 12288]"
    by (simp add: sample_form_def)
  have sent: "requests (addCamera (sample_form (js '' Gate '')) (Json (sample_reply True)) True)
       = [POST Api_cameras (Add_camera_body (js ''Gate'') (js ''North'') (js ''rtsp://cam/1''))]"
    by (simp add: addCamera_def sample_form_def sample_reply_def Let_def trim_def js_def
          isWhiteSpace_def)
  from addCamera_rejects_blank_name
         [of "sample_form [32, 9, 160, 12288]" "Json (sample_reply True)" True]
       addCamera_rejects_blank_name
         [of "sample_form (js '' Gate '')" "Json (sample_reply True)" True]
       blank name sent
  show ?thesis
    by simp
qed

subsection \<open>The alerts panel\<close>

lemma requests_append: "requests (xs @ ys) = requests xs @ requests ys"
  by (induction xs rule: requests.induct) simp_all

lemma alerts_updateAlertCount: "alerts (updateAlertCount s) = alerts s"
  by (simp add: updateAlertCount_def Let_def)

lemma alerts_renderAlerts: "alerts (renderAlerts fmt unchanged s) = alerts s"
  by (simp add: renderAlerts_def)

text \<open>With an empty list the outcome of the comparison does not matter.\<close>

lemma renderAlerts_no_alerts:
  "alerts s = [] \<Longrightarrow> renderAlerts fmt unchanged s = renderAlerts fmt' unchanged' s"
  by (simp add: renderAlerts_def)

lemma alerts_fireTimer:
  "alerts (fireTimer fmt t s) = filter (\<lambda>a. alert_id a \<noteq> snd t) (alerts s)"
  by (simp add: fireTimer_def removeAlertTimeout_def Let_def alerts_renderAlerts
        alerts_updateAlertCount)

lemma effects_fireTimer: "effects (fireTimer fmt t s) = effects s"
  by (simp add: fireTimer_def removeAlertTimeout_def Let_def renderAlerts_def
        updateAlertCount_def)

lemma effects_fold_fireTimer: "effects (fold (fireTimer fmt) ts s) = effects s"
  by (induction ts arbitrary: s) (simp_all add: effects_fireTimer)

lemma nodeKeys_removeNode: "nodeKeys (removeNode k m) = filter (\<lambda>x. x \<noteq> k) (nodeKeys m)"
  by (cases m) (simp_all add: filter_map comp_def)

lemma nodeKeys_fireTimer: "fst t \<notin> set (nodeKeys (alertsList (fireTimer fmt t s)))"
  by (simp add: fireTimer_def removeAlertTimeout_def Let_def renderAlerts_def
        updateAlertCount_def nodeKeys_removeNode)

text \<open>Every render that writes the panel leaves it in agreement with the list.\<close>

lemma find_buildItems:
  "a \<in> set as \<Longrightarrow> find (\<lambda>n. alert_id (node_src n) = alert_id a) (buildItems fmt k as) \<noteq> None"
  by (induction as arbitrary: k) auto

text \<open>
  Equal strings mean the panel already holds the items of the new markup, each with
  the id of its alert, so the panel then shows every alert of the list.
\<close>

lemma rendered_renderAlerts:
  assumes "unchanged \<longrightarrow> rendered s"
  shows "rendered (renderAlerts fmt unchanged s)"
proof (cases "alerts s = []")
  case True
  then show ?thesis
    by (simp add: rendered_def renderAlerts_def)
next
  case False
  show ?thesis
  proof (cases unchanged)
    case True
    with False assms show ?thesis
      by (simp add: renderAlerts_def)
  next
    case written: False
    with False show ?thesis
      by (auto simp: rendered_def renderAlerts_def list_all_iff dest: find_buildItems)
  qed
qed

lemma rendered_no_element:
  "rendered s \<Longrightarrow> getAlertElement aid (alertsList s) = None \<Longrightarrow>
   filter (\<lambda>a. alert_id a \<noteq> aid) (alerts s) = alerts s"
  by (auto simp: rendered_def list_all_iff filter_id_conv)

lemma removeAlertFromUI_cases:
  "(getAlertElement aid (alertsList s) = None \<and> removeAlertFromUI aid s = s)
   \<or> (\<exists>n. getAlertElement aid (alertsList s) = Some n
          \<and> timers (removeAlertFromUI aid s) = timers s @ [(node_key n, aid)]
          \<and> alerts (removeAlertFromUI aid s) = alerts s
          \<and> effects (removeAlertFromUI aid s) = effects s)"
  by (cases "getAlertElement aid (alertsList s)") (simp_all add: removeAlertFromUI_def)

lemma removeAlertFromUI_settles:
  assumes "rendered s"
  shows "alerts (runNewTimers fmt s (removeAlertFromUI aid s))
           = filter (\<lambda>a. alert_id a \<noteq> aid) (alerts s)"
  using removeAlertFromUI_cases [of aid s] assms
  by (auto simp: runNewTimers_def alerts_fireTimer rendered_no_element)

lemma removed_node_gone:
  assumes "getAlertElement aid (alertsList s) = Some n"
  shows "node_key n \<notin> set (nodeKeys (alertsList (runNewTimers fmt s (removeAlertFromUI aid s))))"
  using assms nodeKeys_fireTimer [of "(node_key n, aid)" fmt]
  by (simp add: runNewTimers_def removeAlertFromUI_def)

lemma rendered_effects: "rendered (s\<lparr>effects := e\<rparr>) = rendered s"
  by (simp add: rendered_def)

lemma runNewTimers_effects_update:
  "runNewTimers fmt (s\<lparr>effects := e\<rparr>) s1 = runNewTimers fmt s s1"
  by (simp add: runNewTimers_def)

lemma fireTimer_effects_update:
  "fireTimer fmt t (s\<lparr>effects := e\<rparr>) = (fireTimer fmt t s)\<lparr>effects := e\<rparr>"
  by (simp add: fireTimer_def removeAlertTimeout_def Let_def renderAlerts_def
        updateAlertCount_def)

lemma fold_fireTimer_effects_update:
  "fold (fireTimer fmt) ts (s\<lparr>effects := e\<rparr>) = (fold (fireTimer fmt) ts s)\<lparr>effects := e\<rparr>"
  by (induction ts arbitrary: s) (simp_all add: fireTimer_effects_update)

lemma runNewTimers_showNotification:
  "runNewTimers fmt s (showNotification msg ty s1)
     = showNotification msg ty (runNewTimers fmt s s1)"
  by (simp add: runNewTimers_def showNotification_def fold_fireTimer_effects_update
        effects_fold_fireTimer)

lemma alerts_showNotification: "alerts (showNotification msg ty s) = alerts s"
  by (simp add: showNotification_def)

lemma alertsList_showNotification: "alertsList (showNotification msg ty s) = alertsList s"
  by (simp add: showNotification_def)

text \<open>The handlers keep the panel in agreement with the list.\<close>

lemma find_map_None:
  assumes "\<And>n. P (f n) = P n"
  shows "find P (map f ns) = None \<longleftrightarrow> find P ns = None"
  by (induction ns) (simp_all add: assms)

lemma getAlertElement_styleNode:
  "getAlertElement i (styleNode k m) = None \<longleftrightarrow> getAlertElement i m = None"
proof (cases m)
  case (Items ns)
  have "find (\<lambda>n. alert_id (node_src n) = i)
          (map (\<lambda>n. if node_key n = k then n\<lparr>node_styled := True\<rparr> else n) ns) = None
        \<longleftrightarrow> find (\<lambda>n. alert_id (node_src n) = i) ns = None"
    by (rule find_map_None) simp
  with Items show ?thesis by simp
qed simp_all

lemma rendered_removeAlertFromUI: "rendered s \<Longrightarrow> rendered (removeAlertFromUI aid s)"
  by (cases "getAlertElement aid (alertsList s)")
     (simp_all add: removeAlertFromUI_def rendered_def getAlertElement_styleNode)

lemma rendered_acknowledgeAlert: "rendered s \<Longrightarrow> rendered (acknowledgeAlert aid outcome s)"
  using rendered_removeAlertFromUI
    [of "s\<lparr>effects := effects s @
           [Fetch (POST (Api_alert_acknowledge aid) (Acknowledge_body (js ''Admin'')))]\<rparr>" aid]
  by (cases outcome)
     (simp_all add: acknowledgeAlert_def Let_def showNotification_def rendered_effects)

lemma rendered_on_alert_acknowledged: "rendered s \<Longrightarrow> rendered (on_alert_acknowledged aid s)"
  by (simp add: on_alert_acknowledged_def rendered_removeAlertFromUI rendered_effects)

text \<open>
  C7. Let \<open>s\<close> be a dashboard whose panel shows every alert of its list. Whatever
  the reply, \<^verbatim>\<open>acknowledgeAlert(alertId)\<close> keeps the earlier effects and adds
  exactly one request, the POST to \<^verbatim>\<open>/api/alerts/{alertId}/acknowledge\<close> with body
  \<^verbatim>\<open>{admin_name: 'Admin'}\<close>. On a reply with \<open>success\<close>, once the timer the call has
  set has run, the list is the old list without the alerts of that id and the
  element found for that id is out of the panel. On a reply without \<open>success\<close>
  nothing changes but the effects: the request and a danger toast with the reply's
  error (or the fallback text), so the alert stays listed.
\<close>

theorem acknowledgeAlert_contract:
  assumes "rendered s"
  shows "take (length (effects s)) (effects (acknowledgeAlert alertId outcome s)) = effects s
     \<and> requests (drop (length (effects s)) (effects (acknowledgeAlert alertId outcome s)))
         = [POST (Api_alert_acknowledge alertId) (Acknowledge_body (js ''Admin''))]
     \<and> (\<forall>data. outcome = Json data \<and> success data \<longrightarrow>
           alerts (runNewTimers fmt s (acknowledgeAlert alertId outcome s))
             = filter (\<lambda>a. alert_id a \<noteq> alertId) (alerts s)
           \<and> (\<forall>n. getAlertElement alertId (alertsList s) = Some n \<longrightarrow>
                 node_key n \<notin> set (nodeKeys (alertsList
                   (runNewTimers fmt s (acknowledgeAlert alertId outcome s))))))
     \<and> (\<forall>data. outcome = Json data \<and> \<not> success data \<longrightarrow>
           acknowledgeAlert alertId outcome s
             = s\<lparr>effects := effects s @
                   [Fetch (POST (Api_alert_acknowledge alertId) (Acknowledge_body (js ''Admin''))),
                    Notify (or_default (error data) (js ''Failed to acknowledge alert'')) Danger]\<rparr>)"
proof -
  let ?req = "Fetch (POST (Api_alert_acknowledge alertId) (Acknowledge_body (js ''Admin'')))"
  let ?s1 = "s\<lparr>effects := effects s @ [?req]\<rparr>"
  have r1: "rendered ?s1"
    using assms by (simp add: rendered_effects)
  have "\<exists>tl. effects (acknowledgeAlert alertId outcome s) = effects s @ ?req # tl
              \<and> requests tl = []"
    using removeAlertFromUI_cases [of alertId ?s1]
    by (cases outcome) (auto simp: acknowledgeAlert_def showNotification_def Let_def)
  then obtain tl where tl: "effects (acknowledgeAlert alertId outcome s) = effects s @ ?req # tl"
      "requests tl = []"
    by blast
  have A: "take (length (effects s)) (effects (acknowledgeAlert alertId outcome s)) = effects s"
    by (simp add: tl)
  have B: "requests (drop (length (effects s)) (effects (acknowledgeAlert alertId outcome s)))
         = [POST (Api_alert_acknowledge alertId) (Acknowledge_body (js ''Admin''))]"
    by (simp add: tl)
  have C: "alerts (runNewTimers fmt s (acknowledgeAlert alertId outcome s))
             = filter (\<lambda>a. alert_id a \<noteq> alertId) (alerts s)"
    if "outcome = Json data" "success data" for data
    using that removeAlertFromUI_settles [OF r1, of fmt alertId]
    by (simp add: acknowledgeAlert_def Let_def runNewTimers_showNotification
          alerts_showNotification runNewTimers_effects_update)
  have D: "node_key n \<notin> set (nodeKeys (alertsList
                   (runNewTimers fmt s (acknowledgeAlert alertId outcome s))))"
    if "outcome = Json data" "success data" "getAlertElement alertId (alertsList s) = Some n"
    for data n
    using that removed_node_gone [of alertId ?s1 n fmt]
    by (simp add: acknowledgeAlert_def Let_def runNewTimers_showNotification
          alertsList_showNotification runNewTimers_effects_update)
  have E: "acknowledgeAlert alertId outcome s
             = s\<lparr>effects := effects s @
                   [?req, Notify (or_default (error data) (js ''Failed to acknowledge alert'')) Danger]\<rparr>"
    if "outcome = Json data" "\<not> success data" for data
    using that by (simp add: acknowledgeAlert_def Let_def showNotification_def)
  from A B C D E show ?thesis
    by blast
qed

theorem acknowledgeAlert_contract_witness:
  "rendered sample_dashboard
   \<and> requests (effects (acknowledgeAlert 5 (Json (sample_reply True)) sample_dashboard))
       = [POST (Api_alert_acknowledge 5) (Acknowledge_body (js ''Admin''))]
   \<and> alerts (runNewTimers (\<lambda>t. ''Just now'') sample_dashboard
               (acknowledgeAlert 5 (Json (sample_reply True)) sample_dashboard))
       = [sample_alert 7]
   \<and> nodeKeys (alertsList (runNewTimers (\<lambda>t. ''Just now'') sample_dashboard
               (acknowledgeAlert 5 (Json (sample_reply True)) sample_dashboard)))
       = [1]
   \<and> acknowledgeAlert 5 (Json (sample_reply False)) sample_dashboard
       = sample_dashboard\<lparr>effects :=
           [Fetch (POST (Api_alert_acknowledge 5) (Acknowledge_body (js ''Admin''))),
            Notify (js ''Alert not found'') Danger]\<rparr>"
proof -
  have r: "rendered sample_dashboard"
    by (simp add: rendered_def sample_dashboard_def sample_node_def sample_alert_def)
  have e: "effects sample_dashboard = []"
    and a: "alerts sample_dashboard = [sample_alert 5, sample_alert 7]"
    by (simp_all add: sample_dashboard_def)
  have ids: "alert_id (sample_alert 5) = 5" "alert_id (sample_alert 7) = 7"
    by (simp_all add: sample_alert_def)
  have ok: "success (sample_reply True)" and no: "\<not> success (sample_reply False)"
    and err: "or_default (error (sample_reply False)) (js ''Failed to acknowledge alert'')
                = js ''Alert not found''"
    by (simp_all add: sample_reply_def or_default_def js_def)
  have keys: "nodeKeys (alertsList (runNewTimers (\<lambda>t. ''Just now'') sample_dashboard
               (acknowledgeAlert 5 (Json (sample_reply True)) sample_dashboard))) = [1]"
    by (simp add: acknowledgeAlert_def sample_reply_def sample_dashboard_def sample_node_def
          sample_alert_def runNewTimers_def removeAlertFromUI_def showNotification_def
          fireTimer_def removeAlertTimeout_def updateAlertCount_def Let_def)
  from acknowledgeAlert_contract
         [OF r, of 5 "Json (sample_reply True)" "\<lambda>t. ''Just now''"]
       acknowledgeAlert_contract
         [OF r, of 5 "Json (sample_reply False)" "\<lambda>t. ''Just now''"]
       r e a ids ok no err keys
  show ?thesis
    by simp
qed

lemma removeNode_styleNode: "removeNode k (styleNode k m) = removeNode k m"
proof (cases m)
  case (Items ns)
  have "filter (\<lambda>n. node_key n \<noteq> k)
          (map (\<lambda>n. if node_key n = k then n\<lparr>node_styled := True\<rparr> else n) ns)
        = filter (\<lambda>n. node_key n \<noteq> k) ns"
    by (induction ns) simp_all
  with Items show ?thesis by simp
qed simp_all

text \<open>
  The panel once the timer of \<^verbatim>\<open>removeAlertFromUI\<close> has run: the old panel without
  the element, or the paragraph \<^verbatim>\<open>No active alerts\<close> when the list has become empty.
\<close>

lemma panel_after_removal:
  assumes "getAlertElement aid (alertsList s) = Some n"
  shows "alertsList (runNewTimers fmt s (removeAlertFromUI aid s))
           = (if filter (\<lambda>a. alert_id a \<noteq> aid) (alerts s) = []
                 \<and> \<not> includesNoActiveAlerts (removeNode (node_key n) (alertsList s))
              then No_active_alerts
              else removeNode (node_key n) (alertsList s))"
  using assms
  by (simp add: runNewTimers_def removeAlertFromUI_def fireTimer_def removeAlertTimeout_def
        updateAlertCount_def renderAlerts_def Let_def removeNode_styleNode)

lemma panel_without_element:
  assumes "getAlertElement aid (alertsList s) = None"
  shows "runNewTimers fmt s (removeAlertFromUI aid s) = s"
  using assms by (simp add: runNewTimers_def removeAlertFromUI_def)

text \<open>
  C8. Let \<open>s\<close> be a dashboard whose panel shows every alert of its list. The
  handler of \<^verbatim>\<open>alert_acknowledged\<close> with \<^verbatim>\<open>{alert_id}\<close> issues no request, and
  neither does the timer it sets. Once that timer has run, the list is the old list
  without the alerts of that id, every other alert kept in place, and no alert of the
  list has that id; the element found for that id is out of \<^verbatim>\<open>#alertsList\<close>, and
  the panel is the old panel without that element and nothing else changed (or the
  paragraph \<^verbatim>\<open>No active alerts\<close> when the list has become empty). When the panel
  has no element for that id, panel and list stay as they are.
\<close>

theorem alert_acknowledged_event:
  assumes "rendered s"
  shows "requests (effects (on_alert_acknowledged data_alert_id s)) = requests (effects s)
     \<and> requests (effects (runNewTimers fmt s (on_alert_acknowledged data_alert_id s)))
         = requests (effects s)
     \<and> alerts (runNewTimers fmt s (on_alert_acknowledged data_alert_id s))
         = filter (\<lambda>a. alert_id a \<noteq> data_alert_id) (alerts s)
     \<and> list_all (\<lambda>a. alert_id a \<noteq> data_alert_id)
         (alerts (runNewTimers fmt s (on_alert_acknowledged data_alert_id s)))
     \<and> (\<forall>n. getAlertElement data_alert_id (alertsList s) = Some n \<longrightarrow>
           node_key n \<notin> set (nodeKeys (alertsList
             (runNewTimers fmt s (on_alert_acknowledged data_alert_id s))))
           \<and> alertsList (runNewTimers fmt s (on_alert_acknowledged data_alert_id s))
               = (if filter (\<lambda>a. alert_id a \<noteq> data_alert_id) (alerts s) = []
                     \<and> \<not> includesNoActiveAlerts (removeNode (node_key n) (alertsList s))
                  then No_active_alerts
                  else removeNode (node_key n) (alertsList s)))
     \<and> (getAlertElement data_alert_id (alertsList s) = None \<longrightarrow>
           alertsList (runNewTimers fmt s (on_alert_acknowledged data_alert_id s)) = alertsList s
           \<and> alerts (runNewTimers fmt s (on_alert_acknowledged data_alert_id s)) = alerts s)"
proof -
  let ?s1 = "s\<lparr>effects := effects s @ [ConsoleLog]\<rparr>"
  have r1: "rendered ?s1"
    using assms by (simp add: rendered_effects)
  have run: "runNewTimers fmt s (on_alert_acknowledged data_alert_id s)
               = runNewTimers fmt ?s1 (removeAlertFromUI data_alert_id ?s1)"
    by (simp add: on_alert_acknowledged_def runNewTimers_effects_update)
  have e1: "effects (removeAlertFromUI data_alert_id ?s1) = effects s @ [ConsoleLog]"
    using removeAlertFromUI_cases [of data_alert_id ?s1] by auto
  have al: "alerts (runNewTimers fmt s (on_alert_acknowledged data_alert_id s))
         = filter (\<lambda>a. alert_id a \<noteq> data_alert_id) (alerts s)"
    unfolding run using removeAlertFromUI_settles [OF r1, of fmt data_alert_id] by simp
  have gone: "node_key n \<notin> set (nodeKeys (alertsList
             (runNewTimers fmt s (on_alert_acknowledged data_alert_id s))))"
    if "getAlertElement data_alert_id (alertsList s) = Some n" for n
    unfolding run using that removed_node_gone [of data_alert_id ?s1 n fmt] by simp
  have panel: "alertsList (runNewTimers fmt s (on_alert_acknowledged data_alert_id s))
               = (if filter (\<lambda>a. alert_id a \<noteq> data_alert_id) (alerts s) = []
                     \<and> \<not> includesNoActiveAlerts (removeNode (node_key n) (alertsList s))
                  then No_active_alerts
                  else removeNode (node_key n) (alertsList s))"
    if "getAlertElement data_alert_id (alertsList s) = Some n" for n
    unfolding run using that panel_after_removal [of data_alert_id ?s1 n fmt] by simp
  have absent: "alertsList (runNewTimers fmt s (on_alert_acknowledged data_alert_id s)) = alertsList s
           \<and> alerts (runNewTimers fmt s (on_alert_acknowledged data_alert_id s)) = alerts s"
    if "getAlertElement data_alert_id (alertsList s) = None"
    unfolding run using that panel_without_element [of data_alert_id ?s1 fmt] by simp
  have req: "requests (effects (on_alert_acknowledged data_alert_id s)) = requests (effects s)"
    "requests (effects (runNewTimers fmt s (on_alert_acknowledged data_alert_id s)))
         = requests (effects s)"
    by (simp_all add: on_alert_acknowledged_def runNewTimers_def e1 effects_fold_fireTimer
          requests_append)
  have none: "list_all (\<lambda>a. alert_id a \<noteq> data_alert_id)
         (alerts (runNewTimers fmt s (on_alert_acknowledged data_alert_id s)))"
    unfolding al by (simp add: list_all_iff)
  from req al none gone panel absent show ?thesis
    by blast
qed

theorem alert_acknowledged_event_witness:
  "rendered sample_dashboard
   \<and> getAlertElement 7 (alertsList sample_dashboard) = Some (sample_node 1 7)
   \<and> nodeKeys (alertsList sample_dashboard) = [0, 1]
   \<and> requests (effects (runNewTimers (\<lambda>t. ''Just now'') sample_dashboard
                 (on_alert_acknowledged 7 sample_dashboard))) = []
   \<and> alerts (runNewTimers (\<lambda>t. ''Just now'') sample_dashboard
               (on_alert_acknowledged 7 sample_dashboard))
       = [sample_alert 5]
   \<and> alertsList (runNewTimers (\<lambda>t. ''Just now'') sample_dashboard
               (on_alert_acknowledged 7 sample_dashboard))
       = Items [sample_node 0 5]
   \<and> nodeKeys (alertsList (runNewTimers (\<lambda>t. ''Just now'') sample_dashboard
               (on_alert_acknowledged 7 sample_dashboard)))
       = [0]
   \<and> timers (on_alert_acknowledged 7 sample_dashboard) = [(1, 7)]"
proof -
  have r: "rendered sample_dashboard"
    by (simp add: rendered_def sample_dashboard_def sample_node_def sample_alert_def)
  have e: "effects sample_dashboard = []"
    and a: "alerts sample_dashboard = [sample_alert 5, sample_alert 7]"
    and l: "alertsList sample_dashboard = Items [sample_node 0 5, sample_node 1 7]"
    by (simp_all add: sample_dashboard_def)
  have ids: "alert_id (sample_alert 5) = 5" "alert_id (sample_alert 7) = 7"
    by (simp_all add: sample_alert_def)
  have found: "getAlertElement 7 (alertsList sample_dashboard) = Some (sample_node 1 7)"
    unfolding l by (simp add: sample_node_def sample_alert_def)
  have k: "node_key (sample_node 0 5) = 0" "node_key (sample_node 1 7) = 1"
    by (simp_all add: sample_node_def)
  have t: "timers (on_alert_acknowledged 7 sample_dashboard) = [(1, 7)]"
    by (simp add: on_alert_acknowledged_def removeAlertFromUI_def sample_dashboard_def
          sample_node_def sample_alert_def)
  from alert_acknowledged_event [OF r, of 7 "\<lambda>t. ''Just now''"] r e a l ids found k t
  show ?thesis
    by simp
qed

section \<open>Properties of camera-view.js\<close>

lemma update_fresh: "map_of al k = None \<Longrightarrow> AList.update k v al = al @ [(k, v)]"
  by (induction al) (auto split: if_splits)

lemma delete_absent: "map_of al k = None \<Longrightarrow> AList.delete k al = al"
  by (induction al) (auto split: if_splits)

lemma map_filter_append:
  "List.map_filter f (xs @ ys) = List.map_filter f xs @ List.map_filter f ys"
  by (simp add: List.map_filter_def)

lemma set_map_filter: "set (List.map_filter f xs) = {y. \<exists>x \<in> set xs. f x = Some y}"
  by (induction xs) (auto simp: List.map_filter_simps split: option.splits)

lemma gridCards_detach: "gridCards (detach k d) = filter (\<lambda>x. x \<noteq> k) (gridCards d)"
proof (cases "cameraGrid d")
  case None
  then show ?thesis by (simp add: gridCards_def detach_def)
next
  case (Some cs)
  have "List.map_filter (\<lambda>c. case c of Card k \<Rightarrow> Some k | Markup m \<Rightarrow> None)
          (filter (\<lambda>c. c \<noteq> Card k) cs)
        = filter (\<lambda>x. x \<noteq> k)
            (List.map_filter (\<lambda>c. case c of Card k \<Rightarrow> Some k | Markup m \<Rightarrow> None) cs)"
    by (induction cs) (auto simp: List.map_filter_simps split: grid_child.splits)
  with Some show ?thesis by (simp add: gridCards_def detach_def)
qed

lemma viewCards_delete:
  assumes "distinct (map fst al)" "map_of al k = Some v" "element v = Some key"
    and "distinct (List.map_filter (\<lambda>kv. element (snd kv)) al)"
  shows "List.map_filter (\<lambda>kv. element (snd kv)) (AList.delete k al)
           = filter (\<lambda>x. x \<noteq> key) (List.map_filter (\<lambda>kv. element (snd kv)) al)"
  using assms
proof (induction al)
  case Nil
  then show ?case by simp
next
  case (Cons p al)
  obtain k' v' where p: "p = (k', v')" by (cases p)
  show ?case
  proof (cases "k' = k")
    case True
    with Cons.prems p have v: "v' = v" and absent: "map_of al k = None"
      by (auto simp: map_of_eq_None_iff)
    from Cons.prems p v have "key \<notin> set (List.map_filter (\<lambda>kv. element (snd kv)) al)"
      by (simp add: List.map_filter_simps)
    then have "filter (\<lambda>x. x \<noteq> key) (List.map_filter (\<lambda>kv. element (snd kv)) al)
                 = List.map_filter (\<lambda>kv. element (snd kv)) al"
      by (auto simp: filter_id_conv)
    with True p v Cons.prems(3) absent show ?thesis
      by (simp add: List.map_filter_simps delete_absent)
  next
    case False
    with Cons.prems p have m: "map_of al k = Some v" by simp
    then have "(k, v) \<in> set al" by (rule map_of_SomeD)
    with Cons.prems(3) have inrest: "key \<in> set (List.map_filter (\<lambda>kv. element (snd kv)) al)"
      by (force simp: set_map_filter)
    have IH: "List.map_filter (\<lambda>kv. element (snd kv)) (AList.delete k al)
           = filter (\<lambda>x. x \<noteq> key) (List.map_filter (\<lambda>kv. element (snd kv)) al)"
      using Cons.prems p m
      by (intro Cons.IH) (auto simp: List.map_filter_simps split: option.splits)
    show ?thesis
      using False p IH inrest Cons.prems(4)
      by (auto simp: List.map_filter_simps split: option.splits)
  qed
qed

lemma inv_initialize:
  assumes "gridCards d0 = []"
  shows "manager_inv (initialize (new_CameraViewManager, d0))"
  using assms
  by (auto simp: manager_inv_def initialize_def new_CameraViewManager_def oneViewPerCamera_def
        consistent_def viewCards_def gridCards_def List.map_filter_simps split: option.splits)

lemma inv_addCamera:
  assumes "manager_inv md"
  shows "manager_inv (snd (CameraViewManager_addCamera now c md))"
proof -
  obtain m d where md: "md = (m, d)" by (cases md)
  show ?thesis
  proof (cases "map_of (cameraViews m) (cam_id c)")
    case (Some v)
    with assms md show ?thesis
      by (simp add: CameraViewManager_addCamera_def manager_inv_def consistent_def gridCards_def)
  next
    case None
    let ?v = "createElement now (nextCard d) (new_CameraView c)"
    have upd: "AList.update (cam_id c) ?v (cameraViews m) = cameraViews m @ [(cam_id c, ?v)]"
      by (rule update_fresh [OF None])
    have fresh: "cam_id c \<notin> fst ` set (cameraViews m)"
      using None by (simp add: map_of_eq_None_iff)
    have cards: "viewCards (m\<lparr>cameraViews := cameraViews m @ [(cam_id c, ?v)]\<rparr>)
                   = viewCards m @ [nextCard d]"
      by (simp add: viewCards_def map_filter_append List.map_filter_simps createElement_def)
    from assms md have below: "\<forall>k \<in> set (viewCards m). k < nextCard d"
      by (simp add: manager_inv_def list_all_iff)
    then have notin: "nextCard d \<notin> set (viewCards m)" by auto
    show ?thesis
    proof (cases "gridContainer m")
      case True
      with assms md obtain cs where cs: "cameraGrid d = Some cs"
        by (auto simp: manager_inv_def)
      have g: "gridCards (d\<lparr>nextCard := Suc (nextCard d), cameraGrid := Some (cs @ [Card (nextCard d)])\<rparr>)
                 = gridCards d @ [nextCard d]"
        using cs by (simp add: gridCards_def map_filter_append List.map_filter_simps)
      from assms md None True cs fresh below notin show ?thesis
        unfolding CameraViewManager_addCamera_def
        apply (simp add: Let_def upd manager_inv_def consistent_def oneViewPerCamera_def cards g)
        apply (auto simp: list_all_iff createElement_def new_CameraView_def)
        done
    next
      case False
      have g: "gridCards (d\<lparr>nextCard := Suc (nextCard d)\<rparr>) = gridCards d"
        by (simp add: gridCards_def)
      from assms md None False fresh below notin show ?thesis
        unfolding CameraViewManager_addCamera_def
        apply (simp add: Let_def upd manager_inv_def consistent_def oneViewPerCamera_def cards g)
        apply (auto simp: list_all_iff createElement_def new_CameraView_def)
        done
    qed
  qed
qed

lemma inv_removeCamera:
  assumes "manager_inv md"
  shows "manager_inv (CameraViewManager_removeCamera cameraId md)"
proof -
  obtain m d where md: "md = (m, d)" by (cases md)
  show ?thesis
  proof (cases "map_of (cameraViews m) cameraId")
    case None
    with assms md show ?thesis
      by (simp add: CameraViewManager_removeCamera_def)
  next
    case (Some v)
    then have mem: "(cameraId, v) \<in> set (cameraViews m)" by (rule map_of_SomeD)
    with assms md obtain key where key: "element v = Some key"
      by (auto simp: manager_inv_def consistent_def list_all_iff)
    from assms md have dk: "distinct (map fst (cameraViews m))"
      and dc: "distinct (List.map_filter (\<lambda>kv. element (snd kv)) (cameraViews m))"
      by (simp_all add: manager_inv_def oneViewPerCamera_def consistent_def viewCards_def)
    have vc: "viewCards (m\<lparr>cameraViews := AList.delete cameraId (cameraViews m)\<rparr>)
                = filter (\<lambda>x. x \<noteq> key) (viewCards m)"
      unfolding viewCards_def using viewCards_delete [OF dk Some key dc] by simp
    have sub: "set (AList.delete cameraId (cameraViews m)) \<subseteq> set (cameraViews m)"
      by (auto simp: AList.delete_eq)
    from assms md Some key sub show ?thesis
      unfolding CameraViewManager_removeCamera_def
      apply (simp add: manager_inv_def consistent_def oneViewPerCamera_def vc destroy_def
               gridCards_detach AList.distinct_delete)
      apply (auto simp: list_all_iff detach_def)
      done
  qed
qed

lemma fold_destroy_facts:
  "nextCard (fold (\<lambda>kv. destroy (snd kv)) al d) = nextCard d
   \<and> (cameraGrid (fold (\<lambda>kv. destroy (snd kv)) al d) = None \<longleftrightarrow> cameraGrid d = None)
   \<and> (gridCards d = [] \<longrightarrow> gridCards (fold (\<lambda>kv. destroy (snd kv)) al d) = [])"
proof (induction al arbitrary: d)
  case Nil
  then show ?case by simp
next
  case (Cons p al)
  have "nextCard (destroy (snd p) d) = nextCard d"
    and "cameraGrid (destroy (snd p) d) = None \<longleftrightarrow> cameraGrid d = None"
    by (auto simp: destroy_def detach_def split: option.splits)
  moreover have "gridCards d = [] \<longrightarrow> gridCards (destroy (snd p) d) = []"
    by (auto simp: destroy_def gridCards_detach split: option.splits)
  ultimately show ?case
    using Cons.IH [of "destroy (snd p) d"] by simp
qed

lemma inv_clearAllCameras:
  assumes "manager_inv md"
  shows "manager_inv (CameraViewManager_clearAllCameras md)"
proof -
  obtain m d where md: "md = (m, d)" by (cases md)
  let ?d1 = "fold (\<lambda>kv. destroy (snd kv)) (cameraViews m) d"
  note f = fold_destroy_facts [of "cameraViews m" d]
  show ?thesis
  proof (cases "gridContainer m")
    case True
    with assms md have "cameraGrid d \<noteq> None" by (simp add: manager_inv_def)
    with f obtain cs where "cameraGrid ?d1 = Some cs" by auto
    with md True show ?thesis
      by (simp add: CameraViewManager_clearAllCameras_def Let_def manager_inv_def
            oneViewPerCamera_def consistent_def viewCards_def gridCards_def
            List.map_filter_simps)
  next
    case False
    with assms md have "gridCards d = []" by (simp add: manager_inv_def consistent_def)
    with f have "gridCards ?d1 = []" by simp
    with md False show ?thesis
      by (simp add: CameraViewManager_clearAllCameras_def Let_def manager_inv_def
            oneViewPerCamera_def consistent_def viewCards_def List.map_filter_simps)
  qed
qed

lemma inv_refreshAllCameras:
  assumes "manager_inv md"
  shows "manager_inv (CameraViewManager_refreshAllCameras now (fst md), snd md)"
proof -
  obtain m d where md: "md = (m, d)" by (cases md)
  have el: "element (refreshStream now v) = element v"
    and cam: "camera (refreshStream now v) = camera v" for v
    by (simp_all add: refreshStream_def)
  have "List.map_filter (\<lambda>kv. element (snd kv))
          (map (\<lambda>kv. (fst kv, refreshStream now (snd kv))) al)
        = List.map_filter (\<lambda>kv. element (snd kv)) al" for al :: "(int \<times> camera_view) list"
    by (induction al) (simp_all add: List.map_filter_simps el split: option.splits)
  then have vc: "viewCards (CameraViewManager_refreshAllCameras now m) = viewCards m"
    by (simp add: viewCards_def CameraViewManager_refreshAllCameras_def)
  from assms md show ?thesis
    by (simp add: manager_inv_def consistent_def oneViewPerCamera_def vc)
       (simp add: CameraViewManager_refreshAllCameras_def comp_def list_all_iff el cam)
qed

lemma inv_call: "manager_inv md \<Longrightarrow> manager_inv (call c md)"
  by (cases c)
     (simp_all add: inv_addCamera inv_removeCamera inv_clearAllCameras inv_refreshAllCameras)

lemma inv_calls: "manager_inv md \<Longrightarrow> manager_inv (calls cs md)"
  unfolding calls_def
  by (induction cs arbitrary: md) (simp_all add: inv_call)

text \<open>
  C9. \<^verbatim>\<open>addCamera\<close> with an id the map already holds changes neither the map nor
  the grid nor any view: it returns nothing and only adds the console warning. From a
  fresh, initialised manager over a grid without cards, every run of
  \<^verbatim>\<open>addCamera\<close>, \<^verbatim>\<open>removeCamera\<close>, \<^verbatim>\<open>clearAllCameras\<close> and
  \<^verbatim>\<open>refreshAllCameras\<close> leaves one view per camera id and the map in agreement
  with the cards of the grid; from any state with that invariant, each of
  \<^verbatim>\<open>addCamera\<close>, \<^verbatim>\<open>removeCamera\<close> and \<^verbatim>\<open>clearAllCameras\<close> keeps it. After
  \<^verbatim>\<open>removeCamera(id)\<close> the map has no view for that id, and after
  \<^verbatim>\<open>clearAllCameras()\<close> it is empty.
\<close>

theorem one_view_per_camera:
  "(map_of (cameraViews m) (cam_id c) \<noteq> None \<longrightarrow>
      CameraViewManager_addCamera now c (m, d)
        = (None, m, d\<lparr>console := console d @ [Warn_camera_exists (cam_id c)]\<rparr>))
   \<and> (gridCards d0 = [] \<longrightarrow>
        oneViewPerCamera (fst (calls cs (initialize (new_CameraViewManager, d0))))
        \<and> consistent (calls cs (initialize (new_CameraViewManager, d0))))
   \<and> (manager_inv (m, d) \<longrightarrow>
        manager_inv (snd (CameraViewManager_addCamera now c (m, d)))
        \<and> manager_inv (CameraViewManager_removeCamera cameraId (m, d))
        \<and> manager_inv (CameraViewManager_clearAllCameras (m, d)))
   \<and> map_of (cameraViews (fst (CameraViewManager_removeCamera cameraId (m, d)))) cameraId = None
   \<and> cameraViews (fst (CameraViewManager_clearAllCameras (m, d))) = []"
proof (intro conjI impI)
  assume inv: "manager_inv (m, d)"
  show "manager_inv (snd (CameraViewManager_addCamera now c (m, d)))"
    by (rule inv_addCamera [OF inv])
  show "manager_inv (CameraViewManager_removeCamera cameraId (m, d))"
    by (rule inv_removeCamera [OF inv])
  show "manager_inv (CameraViewManager_clearAllCameras (m, d))"
    by (rule inv_clearAllCameras [OF inv])
next
  assume "map_of (cameraViews m) (cam_id c) \<noteq> None"
  then show "CameraViewManager_addCamera now c (m, d)
        = (None, m, d\<lparr>console := console d @ [Warn_camera_exists (cam_id c)]\<rparr>)"
    by (simp add: CameraViewManager_addCamera_def)
next
  assume "gridCards d0 = []"
  then have "manager_inv (calls cs (initialize (new_CameraViewManager, d0)))"
    by (intro inv_calls inv_initialize)
  then show "oneViewPerCamera (fst (calls cs (initialize (new_CameraViewManager, d0))))"
    and "consistent (calls cs (initialize (new_CameraViewManager, d0)))"
    by (auto simp: manager_inv_def split: prod.splits)
next
  show "map_of (cameraViews (fst (CameraViewManager_removeCamera cameraId (m, d)))) cameraId = None"
    by (simp add: CameraViewManager_removeCamera_def AList.delete_conv split: option.splits)
next
  show "cameraViews (fst (CameraViewManager_clearAllCameras (m, d))) = []"
    by (simp add: CameraViewManager_clearAllCameras_def Let_def)
qed

theorem one_view_per_camera_witness:
  "gridCards sample_document = []
   \<and> map fst (cameraViews (fst (calls [AddCamera 1000 (sample_camera 1),
          AddCamera 1001 (sample_camera 2), AddCamera 1002 (sample_camera 1)]
          (initialize (new_CameraViewManager, sample_document))))) = [1, 2]
   \<and> gridCards (snd (calls [AddCamera 1000 (sample_camera 1),
          AddCamera 1001 (sample_camera 2), AddCamera 1002 (sample_camera 1)]
          (initialize (new_CameraViewManager, sample_document)))) = [0, 1]
   \<and> oneViewPerCamera (fst (calls [AddCamera 1000 (sample_camera 1),
          AddCamera 1001 (sample_camera 2), AddCamera 1002 (sample_camera 1)]
          (initialize (new_CameraViewManager, sample_document))))
   \<and> consistent (calls [AddCamera 1000 (sample_camera 1),
          AddCamera 1001 (sample_camera 2), AddCamera 1002 (sample_camera 1)]
          (initialize (new_CameraViewManager, sample_document)))
   \<and> manager_inv (the (cameraViewManager sample_page), doc sample_page)
   \<and> manager_inv (CameraViewManager_removeCamera 1
         (the (cameraViewManager sample_page), doc sample_page))
   \<and> gridCards (snd (CameraViewManager_removeCamera 1
         (the (cameraViewManager sample_page), doc sample_page))) = []
   \<and> map_of (cameraViews (the (cameraViewManager sample_page))) (cam_id (sample_camera 1)) \<noteq> None
   \<and> CameraViewManager_addCamera 1002 (sample_camera 1)
         (the (cameraViewManager sample_page), doc sample_page)
       = (None, the (cameraViewManager sample_page),
          (doc sample_page)\<lparr>console := [Warn_camera_exists 1]\<rparr>)"
proof -
  let ?cs = "[AddCamera 1000 (sample_camera 1), AddCamera 1001 (sample_camera 2),
              AddCamera 1002 (sample_camera 1)]"
  have g: "gridCards sample_document = []"
    by (simp add: gridCards_def sample_document_def List.map_filter_simps)
  have run: "calls ?cs (initialize (new_CameraViewManager, sample_document))
      = (\<lparr>cameraViews =
            [(1, createElement 1000 0 (new_CameraView (sample_camera 1))),
             (2, createElement 1001 1 (new_CameraView (sample_camera 2)))],
          gridContainer = True\<rparr>,
         \<lparr>cameraGrid = Some [Markup Loading_spinner, Card 0, Card 1], nextCard = 2,
          console = [Warn_camera_exists 1]\<rparr>)"
    by (simp add: calls_def initialize_def new_CameraViewManager_def sample_document_def
          CameraViewManager_addCamera_def sample_camera_def Let_def)
  have keys: "map fst (cameraViews (fst (calls ?cs (initialize (new_CameraViewManager, sample_document))))) = [1, 2]"
    and cards: "gridCards (snd (calls ?cs (initialize (new_CameraViewManager, sample_document)))) = [0, 1]"
    unfolding run by (simp_all add: gridCards_def List.map_filter_simps)
  have page: "the (cameraViewManager sample_page)
      = \<lparr>cameraViews = [(1, createElement 1000 0 (new_CameraView (sample_camera 1)))],
         gridContainer = True\<rparr>"
    "doc sample_page
      = \<lparr>cameraGrid = Some [Markup Loading_spinner, Card 0], nextCard = 1, console = []\<rparr>"
    by (simp_all add: sample_page_def calls_def initialize_def new_CameraViewManager_def
          sample_document_def CameraViewManager_addCamera_def sample_camera_def Let_def)
  have present: "map_of (cameraViews (the (cameraViewManager sample_page))) (cam_id (sample_camera 1)) \<noteq> None"
    unfolding page by (simp add: sample_camera_def)
  have c: "console (doc sample_page) = []" "cam_id (sample_camera 1) = 1"
    unfolding page by (simp_all add: sample_camera_def)
  have inv: "manager_inv (the (cameraViewManager sample_page), doc sample_page)"
    unfolding page
    by (simp add: manager_inv_def oneViewPerCamera_def consistent_def viewCards_def
          gridCards_def List.map_filter_simps createElement_def new_CameraView_def
          sample_camera_def)
  have gone: "gridCards (snd (CameraViewManager_removeCamera 1
         (the (cameraViewManager sample_page), doc sample_page))) = []"
    unfolding page
    by (simp add: CameraViewManager_removeCamera_def destroy_def detach_def gridCards_def
          List.map_filter_simps createElement_def new_CameraView_def)
  from one_view_per_camera
         [of "the (cameraViewManager sample_page)" "sample_camera 1" 1002 "doc sample_page"
             sample_document ?cs 1]
       g keys cards present c inv gone
  show ?thesis
    by simp
qed

text \<open>
  C10. Whenever the page has its grid, every call of the global
  \<^verbatim>\<open>refreshAllCameras()\<close> ends normally with the Connection Error block as the
  grid's only content, so no camera card is left in it. Before that, when the manager
  exists, each of its views has been refreshed and the info toast shown; the outcome
  does not depend on the views.
\<close>

theorem refreshAllCameras_overwrites_grid:
  assumes "cameraGrid (doc p) \<noteq> None"
  shows "fst (refreshAllCameras now p) = None
     \<and> cameraGrid (doc (snd (refreshAllCameras now p))) = Some [Markup Connection_error]
     \<and> gridCards (doc (snd (refreshAllCameras now p))) = []
     \<and> cameraViewManager (snd (refreshAllCameras now p))
         = map_option (CameraViewManager_refreshAllCameras now) (cameraViewManager p)
     \<and> toasts (snd (refreshAllCameras now p))
         = toasts p @ (case cameraViewManager p of None \<Rightarrow> []
                       | Some m \<Rightarrow> [Notify (js ''Refreshing all cameras...'') Info])"
  using assms
  by (cases "cameraViewManager p")
     (auto simp: refreshAllCameras_def Let_def gridCards_def List.map_filter_simps)

theorem refreshAllCameras_overwrites_grid_witness:
  "cameraGrid (doc sample_page) = Some [Markup Loading_spinner, Card 0]
   \<and> viewCards (the (cameraViewManager sample_page)) = [0]
   \<and> fst (refreshAllCameras 2000 sample_page) = None
   \<and> cameraGrid (doc (snd (refreshAllCameras 2000 sample_page))) = Some [Markup Connection_error]
   \<and> gridCards (doc (snd (refreshAllCameras 2000 sample_page))) = []
   \<and> viewCards (the (cameraViewManager (snd (refreshAllCameras 2000 sample_page)))) = [0]
   \<and> map (\<lambda>kv. imgStamp (snd kv))
         (cameraViews (the (cameraViewManager (snd (refreshAllCameras 2000 sample_page))))) = [2000]
   \<and> toasts (snd (refreshAllCameras 2000 sample_page))
       = [Notify (js ''Refreshing all cameras...'') Info]"
proof -
  have page: "sample_page
      = \<lparr>cameraViewManager = Some \<lparr>cameraViews =
            [(1, createElement 1000 0 (new_CameraView (sample_camera 1)))],
          gridContainer = True\<rparr>,
         doc = \<lparr>cameraGrid = Some [Markup Loading_spinner, Card 0], nextCard = 1, console = []\<rparr>,
         toasts = []\<rparr>"
    by (simp add: sample_page_def calls_def initialize_def new_CameraViewManager_def
          sample_document_def CameraViewManager_addCamera_def sample_camera_def Let_def)
  have grid: "cameraGrid (doc sample_page) \<noteq> None"
    unfolding page by simp
  have views: "viewCards (the (cameraViewManager sample_page)) = [0]"
    "viewCards (the (map_option (CameraViewManager_refreshAllCameras 2000)
        (cameraViewManager sample_page))) = [0]"
    "map (\<lambda>kv. imgStamp (snd kv)) (cameraViews (the (map_option
        (CameraViewManager_refreshAllCameras 2000) (cameraViewManager sample_page)))) = [2000]"
    unfolding page
    by (simp_all add: viewCards_def List.map_filter_simps createElement_def new_CameraView_def
          CameraViewManager_refreshAllCameras_def refreshStream_def)
  have before: "cameraGrid (doc sample_page) = Some [Markup Loading_spinner, Card 0]"
    "toasts sample_page = []" "cameraViewManager sample_page \<noteq> None"
    unfolding page by simp_all
  from refreshAllCameras_overwrites_grid [OF grid, of 2000] views before
  show ?thesis
    by (auto split: option.splits)
qed

section \<open>Properties of the alert lifecycle coordinator\<close>

subsection \<open>Store\<close>

lemma store_inv_empty: "store_inv empty_store"
  by (simp add: store_inv_def empty_store_def)

lemma store_inv_create: "store_inv s \<Longrightarrow> store_inv (snd (create s f now))"
  by (auto simp: store_inv_def create_def Let_def list_all_iff)

lemma store_inv_acknowledge: "store_inv s \<Longrightarrow> store_inv (snd (acknowledge s i admin now))"
  by (auto simp: store_inv_def acknowledge_def Let_def list_all_iff sorted_wrt_map
           split: option.splits alert_status.splits
           intro: sorted_wrt_mono_rel [rotated])

lemma store_inv_step: "store_inv s \<Longrightarrow> store_inv (store_step c s)"
  by (cases c) (simp_all add: store_inv_create store_inv_acknowledge)

lemma store_inv_run: "store_inv s \<Longrightarrow> store_inv (store_run cs s)"
  unfolding store_run_def
  by (induction cs arbitrary: s) (simp_all add: store_inv_step)

lemma find_map_other:
  assumes "\<And>b. alert_id (f b) = alert_id b" "\<And>b. alert_id b \<noteq> j \<Longrightarrow> f b = b" "i \<noteq> j"
  shows "find (\<lambda>a. alert_id a = i) (map f xs) = find (\<lambda>a. alert_id a = i) xs"
  using assms by (induction xs) auto

lemma find_map_hit:
  assumes "\<And>b. alert_id (f b) = alert_id b"
  shows "find (\<lambda>a. alert_id a = i) (map f xs) = map_option f (find (\<lambda>a. alert_id a = i) xs)"
  using assms by (induction xs) auto

lemma get_Some_D: "get s i = Some a \<Longrightarrow> a \<in> set (stored s) \<and> alert_id a = i"
  by (auto simp: get_def find_Some_iff)

lemma get_acknowledge_other:
  assumes "i \<noteq> j"
  shows "get (snd (acknowledge s j admin now)) i = get s i"
proof -
  let ?f = "\<lambda>b. if alert_id b = j
                then b\<lparr>status := ACKNOWLEDGED, acknowledged_by := Some admin,
                        acknowledged_at := Some now\<rparr>
                else b"
  have "find (\<lambda>a. alert_id a = i) (map ?f (stored s)) = find (\<lambda>a. alert_id a = i) (stored s)"
    by (rule find_map_other [where j = j]) (simp_all add: assms)
  then show ?thesis
    by (simp add: acknowledge_def get_def Let_def split: option.splits alert_status.splits)
qed

lemma acknowledged_step:
  assumes "store_inv s" "get s i = Some a" "status a = ACKNOWLEDGED"
  shows "get (store_step c s) i = Some a"
proof (cases c)
  case (Create f now)
  from assms have "alert_id a < next_id s" "alert_id a = i"
    using get_Some_D [of s i a] by (auto simp: store_inv_def list_all_iff)
  with assms(2) Create show ?thesis
    by (simp add: get_def create_def Let_def)
next
  case (Acknowledge j admin now)
  show ?thesis
  proof (cases "j = i")
    case True
    with assms Acknowledge show ?thesis
      by (simp add: acknowledge_def)
  next
    case False
    then have "i \<noteq> j" by simp
    with assms(2) Acknowledge show ?thesis
      by (simp add: get_acknowledge_other)
  qed
qed

lemma acknowledged_run:
  assumes "store_inv s" "get s i = Some a" "status a = ACKNOWLEDGED"
  shows "get (store_run cs s) i = Some a"
  using assms unfolding store_run_def
  by (induction cs arbitrary: s) (simp_all add: store_inv_step acknowledged_step)

lemma acknowledge_pending:
  assumes "get s i = Some a" "status a = PENDING"
  shows "fst (acknowledge s i admin now)
           = Acknowledged (a\<lparr>status := ACKNOWLEDGED, acknowledged_by := Some admin,
                              acknowledged_at := Some now\<rparr>)"
    and "get (snd (acknowledge s i admin now)) i
           = Some (a\<lparr>status := ACKNOWLEDGED, acknowledged_by := Some admin,
                      acknowledged_at := Some now\<rparr>)"
proof -
  let ?f = "\<lambda>b. if alert_id b = i
                then b\<lparr>status := ACKNOWLEDGED, acknowledged_by := Some admin,
                        acknowledged_at := Some now\<rparr>
                else b"
  have id: "alert_id a = i"
    using get_Some_D [OF assms(1)] by simp
  have "find (\<lambda>a. alert_id a = i) (map ?f (stored s))
          = map_option ?f (find (\<lambda>a. alert_id a = i) (stored s))"
    by (rule find_map_hit) simp
  with assms id
  show "get (snd (acknowledge s i admin now)) i
           = Some (a\<lparr>status := ACKNOWLEDGED, acknowledged_by := Some admin,
                      acknowledged_at := Some now\<rparr>)"
    by (simp add: acknowledge_def Let_def get_def)
  from assms
  show "fst (acknowledge s i admin now)
           = Acknowledged (a\<lparr>status := ACKNOWLEDGED, acknowledged_by := Some admin,
                              acknowledged_at := Some now\<rparr>)"
    by (simp add: acknowledge_def Let_def)
qed

lemma acknowledge_acknowledged:
  assumes "get s i = Some a" "status a = ACKNOWLEDGED"
  shows "acknowledge s i admin now = (AlreadyAcknowledged (acknowledged_by a) (acknowledged_at a), s)"
  using assms by (simp add: acknowledge_def)

text \<open>
  C1. In a store reached from the empty one, let alert \<open>i\<close> be PENDING. The
  first \<^verbatim>\<open>acknowledge\<close> of it succeeds with the alert committed as ACKNOWLEDGED by
  that administrator at that time. From then on, after any further creations and
  acknowledgements of any alerts, every \<^verbatim>\<open>acknowledge\<close> of \<open>i\<close> answers
  AlreadyAcknowledged with the first administrator and time (so neither a success
  nor NotFound) and leaves the store as it is.
\<close>

theorem acknowledge_first_wins:
  assumes "s = store_run pre empty_store" and "get s i = Some a" and "status a = PENDING"
  shows "fst (acknowledge s i admin now)
           = Acknowledged (a\<lparr>status := ACKNOWLEDGED, acknowledged_by := Some admin,
                              acknowledged_at := Some now\<rparr>)
         \<and> get (snd (acknowledge s i admin now)) i
             = Some (a\<lparr>status := ACKNOWLEDGED, acknowledged_by := Some admin,
                        acknowledged_at := Some now\<rparr>)
         \<and> (\<forall>post admin' now'.
               acknowledge (store_run post (snd (acknowledge s i admin now))) i admin' now'
                 = (AlreadyAcknowledged (Some admin) (Some now),
                    store_run post (snd (acknowledge s i admin now))))"
proof -
  let ?a' = "a\<lparr>status := ACKNOWLEDGED, acknowledged_by := Some admin, acknowledged_at := Some now\<rparr>"
  let ?s1 = "snd (acknowledge s i admin now)"
  have inv: "store_inv s"
    unfolding assms(1) by (rule store_inv_run [OF store_inv_empty])
  have inv1: "store_inv ?s1"
    by (rule store_inv_acknowledge [OF inv])
  have g1: "get ?s1 i = Some ?a'"
    by (rule acknowledge_pending(2) [OF assms(2,3)])
  have later: "get (store_run post ?s1) i = Some ?a'" for post
    by (rule acknowledged_run [OF inv1 g1]) simp
  have "acknowledge (store_run post ?s1) i admin' now'
          = (AlreadyAcknowledged (Some admin) (Some now), store_run post ?s1)" for post admin' now'
    using acknowledge_acknowledged [OF later [of post], of admin' now'] by simp
  then show ?thesis
    using acknowledge_pending(1) [OF assms(2,3)] g1 by simp
qed

theorem acknowledge_first_wins_witness:
  "get (store_run [Create sample_fields 100] empty_store) 1
     = Some (fst (create empty_store sample_fields 100))
   \<and> status (fst (create empty_store sample_fields 100)) = PENDING
   \<and> fst (acknowledge (store_run [Create sample_fields 100] empty_store) 1 ''alice'' 200)
       = Acknowledged ((fst (create empty_store sample_fields 100))
           \<lparr>status := ACKNOWLEDGED, acknowledged_by := Some ''alice'',
            acknowledged_at := Some 200\<rparr>)
   \<and> fst (acknowledge
           (store_run [Create sample_fields 250, Acknowledge 1 ''carol'' 260]
              (snd (acknowledge (store_run [Create sample_fields 100] empty_store) 1 ''alice'' 200)))
           1 ''bob'' 300)
       = AlreadyAcknowledged (Some ''alice'') (Some 200)"
proof -
  let ?s = "store_run [Create sample_fields 100] empty_store"
  let ?a = "fst (create empty_store sample_fields 100)"
  have g: "get ?s 1 = Some ?a"
    by (simp add: store_run_def get_def create_def empty_store_def Let_def)
  have p: "status ?a = PENDING"
    by (simp add: create_def Let_def)
  note T = acknowledge_first_wins [OF refl g p, of "''alice''" 200]
  from T have first: "fst (acknowledge ?s 1 ''alice'' 200)
       = Acknowledged (?a\<lparr>status := ACKNOWLEDGED, acknowledged_by := Some ''alice'',
            acknowledged_at := Some 200\<rparr>)"
    by (rule conjunct1)
  from T have "acknowledge
           (store_run [Create sample_fields 250, Acknowledge 1 ''carol'' 260]
              (snd (acknowledge ?s 1 ''alice'' 200))) 1 ''bob'' 300
       = (AlreadyAcknowledged (Some ''alice'') (Some 200),
          store_run [Create sample_fields 250, Acknowledge 1 ''carol'' 260]
              (snd (acknowledge ?s 1 ''alice'' 200)))"
    by blast
  with g p first show ?thesis
    by simp
qed

lemma ids_step:
  "map alert_id (stored (store_step c s))
     = (case c of Create f now \<Rightarrow> next_id s # map alert_id (stored s) | _ \<Rightarrow> map alert_id (stored s))"
  by (cases c)
     (auto simp: create_def acknowledge_def Let_def split: option.splits alert_status.splits)

lemma next_id_step:
  "next_id (store_step c s) = (case c of Create f now \<Rightarrow> next_id s + 1 | _ \<Rightarrow> next_id s)"
  by (cases c)
     (auto simp: create_def acknowledge_def Let_def split: option.splits alert_status.splits)

lemma ids_run:
  "map alert_id (stored (store_run cs s))
     = rev (map (\<lambda>n. next_id s + int n) [0..<created cs]) @ map alert_id (stored s)"
  unfolding store_run_def
proof (induction cs arbitrary: s)
  case Nil
  then show ?case by simp
next
  case (Cons c cs)
  show ?case
  proof (cases c)
    case (Create f now)
    have ids: "map alert_id (stored (store_step c s)) = next_id s # map alert_id (stored s)"
      and nxt: "next_id (store_step c s) = next_id s + 1"
      using Create ids_step [of c s] next_id_step [of c s] by simp_all
    have "map (\<lambda>n. next_id s + 1 + int n) [0..<created cs]
            = map (\<lambda>n. next_id s + int n) (map Suc [0..<created cs])"
      by simp
    also have "map Suc [0..<created cs] = [1..<Suc (created cs)]"
      by (simp add: map_Suc_upt del: upt_Suc)
    finally have shift: "map (\<lambda>n. next_id s + 1 + int n) [0..<created cs]
            = map (\<lambda>n. next_id s + int n) [1..<Suc (created cs)]" .
    have unroll: "[0..<Suc (created cs)] = 0 # [1..<Suc (created cs)]"
      by (simp add: upt_rec)
    have "map alert_id (stored (fold store_step (c # cs) s))
            = map alert_id (stored (fold store_step cs (store_step c s)))"
      by simp
    also have "\<dots> = rev (map (\<lambda>n. next_id (store_step c s) + int n) [0..<created cs])
                    @ map alert_id (stored (store_step c s))"
      by (rule Cons.IH)
    also have "\<dots> = rev (map (\<lambda>n. next_id s + int n) [1..<Suc (created cs)])
                    @ next_id s # map alert_id (stored s)"
      by (simp only: ids nxt shift)
    also have "\<dots> = rev (map (\<lambda>n. next_id s + int n) [0..<created (c # cs)])
                    @ map alert_id (stored s)"
      using Create by (simp add: unroll del: upt_Suc)
    finally show ?thesis .
  next
    case (Acknowledge i a n)
    have ids: "map alert_id (stored (store_step c s)) = map alert_id (stored s)"
      and nxt: "next_id (store_step c s) = next_id s"
      using Acknowledge ids_step [of c s] next_id_step [of c s] by simp_all
    have "map alert_id (stored (fold store_step (c # cs) s))
            = map alert_id (stored (fold store_step cs (store_step c s)))"
      by simp
    also have "\<dots> = rev (map (\<lambda>n. next_id (store_step c s) + int n) [0..<created cs])
                    @ map alert_id (stored (store_step c s))"
      by (rule Cons.IH)
    also have "\<dots> = rev (map (\<lambda>n. next_id s + int n) [0..<created (c # cs)])
                    @ map alert_id (stored s)"
      unfolding ids nxt using Acknowledge by simp
    finally show ?thesis .
  qed
qed

lemma created_at_step:
  "map created_at (stored (store_step c s))
     = (case c of Create f now \<Rightarrow> now # map created_at (stored s)
        | _ \<Rightarrow> map created_at (stored s))"
  by (cases c)
     (auto simp: create_def acknowledge_def Let_def split: option.splits alert_status.splits)

lemma created_at_run:
  "map created_at (stored (store_run cs s)) = rev (create_times cs) @ map created_at (stored s)"
  unfolding store_run_def
proof (induction cs arbitrary: s)
  case Nil
  then show ?case by simp
next
  case (Cons c cs)
  have "map created_at (stored (fold store_step (c # cs) s))
          = rev (create_times cs) @ map created_at (stored (store_step c s))"
    by (simp add: Cons.IH)
  also have "\<dots> = rev (create_times (c # cs)) @ map created_at (stored s)"
    unfolding created_at_step by (cases c) simp_all
  finally show ?case .
qed

lemma newest_first_by_time:
  assumes "sorted (create_times cs)"
  shows "sorted_wrt (\<lambda>a b. created_at b \<le> created_at a) (listPending (store_run cs empty_store))"
proof -
  have "map created_at (stored (store_run cs empty_store)) = rev (create_times cs)"
    by (simp add: created_at_run empty_store_def)
  moreover have "sorted_wrt (\<lambda>x y. y \<le> x) (rev (create_times cs))"
    using assms by (simp add: sorted_wrt_rev)
  ultimately have "sorted_wrt (\<lambda>x y. y \<le> x) (map created_at (stored (store_run cs empty_store)))"
    by simp
  then have "sorted_wrt (\<lambda>a b. created_at b \<le> created_at a) (stored (store_run cs empty_store))"
    by (simp add: sorted_wrt_map)
  then show ?thesis
    by (simp add: listPending_def sorted_wrt_filter)
qed

text \<open>
  C4. In every store reached from the empty one, \<^verbatim>\<open>listPending()\<close> returns exactly
  the stored alerts that are PENDING, none that is ACKNOWLEDGED, in strictly
  descending id order, which is newest first since ids are assigned in creation
  order; under a clock that never runs backwards between creations the order is
  also descending in \<open>created_at\<close>. The store holds every created alert once,
  ids \<open>n, ..., 1\<close> for \<open>n\<close> creations.
\<close>

theorem listPending_exact:
  assumes "s = store_run cs empty_store"
  shows "set (listPending s) = {a \<in> set (stored s). status a = PENDING}
         \<and> list_all (\<lambda>a. status a \<noteq> ACKNOWLEDGED) (listPending s)
         \<and> sorted_wrt (\<lambda>a b. alert_id b < alert_id a) (listPending s)
         \<and> (sorted (create_times cs) \<longrightarrow>
               sorted_wrt (\<lambda>a b. created_at b \<le> created_at a) (listPending s))
         \<and> map alert_id (stored s) = rev (map (\<lambda>n. 1 + int n) [0..<created cs])"
proof -
  have "store_inv s"
    unfolding assms by (rule store_inv_run [OF store_inv_empty])
  then have "sorted_wrt (\<lambda>a b. alert_id b < alert_id a) (listPending s)"
    by (simp add: store_inv_def listPending_def sorted_wrt_filter)
  moreover have "map alert_id (stored s) = rev (map (\<lambda>n. 1 + int n) [0..<created cs])"
    unfolding assms using ids_run [of cs empty_store] by (simp add: empty_store_def)
  moreover have "sorted (create_times cs) \<longrightarrow>
               sorted_wrt (\<lambda>a b. created_at b \<le> created_at a) (listPending s)"
    unfolding assms by (simp add: newest_first_by_time)
  ultimately show ?thesis
    by (auto simp: listPending_def list_all_iff)
qed

theorem listPending_exact_witness:
  "map alert_id (listPending (store_run
      [Create sample_fields 10, Create sample_fields 20, Acknowledge 1 ''alice'' 30,
       Create sample_fields 40] empty_store)) = [3, 2]
   \<and> map status (stored (store_run
      [Create sample_fields 10, Create sample_fields 20, Acknowledge 1 ''alice'' 30,
       Create sample_fields 40] empty_store)) = [PENDING, PENDING, ACKNOWLEDGED]
   \<and> sorted_wrt (\<lambda>a b. alert_id b < alert_id a) (listPending (store_run
      [Create sample_fields 10, Create sample_fields 20, Acknowledge 1 ''alice'' 30,
       Create sample_fields 40] empty_store))
   \<and> list_all (\<lambda>a. status a \<noteq> ACKNOWLEDGED) (listPending (store_run
      [Create sample_fields 10, Create sample_fields 20, Acknowledge 1 ''alice'' 30,
       Create sample_fields 40] empty_store))
   \<and> sorted (create_times
      [Create sample_fields 10, Create sample_fields 20, Acknowledge 1 ''alice'' 30,
       Create sample_fields 40])
   \<and> map created_at (listPending (store_run
      [Create sample_fields 10, Create sample_fields 20, Acknowledge 1 ''alice'' 30,
       Create sample_fields 40] empty_store)) = [40, 20]
   \<and> sorted_wrt (\<lambda>a b. created_at b \<le> created_at a) (listPending (store_run
      [Create sample_fields 10, Create sample_fields 20, Acknowledge 1 ''alice'' 30,
       Create sample_fields 40] empty_store))
   \<and> map alert_id (stored (store_run
      [Create sample_fields 10, Create sample_fields 20, Acknowledge 1 ''alice'' 30,
       Create sample_fields 40] empty_store)) = [3, 2, 1]"
proof -
  let ?cs = "[Create sample_fields 10, Create sample_fields 20, Acknowledge 1 ''alice'' 30,
       Create sample_fields 40]"
  have ids: "map alert_id (listPending (store_run ?cs empty_store)) = [3, 2]"
    and sts: "map status (stored (store_run ?cs empty_store)) = [PENDING, PENDING, ACKNOWLEDGED]"
    by (simp_all add: store_run_def listPending_def create_def acknowledge_def get_def
          empty_store_def Let_def)
  have tms: "map created_at (listPending (store_run ?cs empty_store)) = [40, 20]"
    by (simp add: store_run_def listPending_def create_def acknowledge_def get_def
          empty_store_def Let_def)
  have n: "rev (map (\<lambda>n. 1 + int n) [0..<created ?cs]) = [3, 2, 1]"
    by (simp add: upt_rec)
  have clock: "sorted (create_times ?cs)"
    by simp
  from listPending_exact [OF refl, of ?cs] ids sts tms n clock
  show ?thesis
    by simp
qed

subsection \<open>Classifier, dedup window and ingest\<close>

lemma ingest_rejected:
  "det_confidence d < min_confidence cfg \<Longrightarrow> ingest cfg cams d st = st"
  by (simp add: ingest_def classify_def Let_def)

lemma ingest_all_rejected:
  "list_all (\<lambda>d. det_confidence d < min_confidence cfg) ds \<Longrightarrow> ingest_all cfg cams ds st = st"
  unfolding ingest_all_def
  by (induction ds arbitrary: st) (simp_all add: ingest_rejected)

text \<open>
  C3. A detection whose confidence is below the configured minimum is not accepted
  by \<^verbatim>\<open>classify\<close>, and ingesting it leaves the coordinator as it was: the store
  has no new alert and the dedup window is untouched.
\<close>

theorem low_confidence_never_alerts:
  "det_confidence d < min_confidence cfg \<Longrightarrow>
     accept (classify cfg d) = False
     \<and> ingest cfg cams d st = st
     \<and> stored (store (ingest cfg cams d st)) = stored (store st)
     \<and> window (ingest cfg cams d st) = window st"
  by (simp add: ingest_rejected) (simp add: classify_def)

theorem low_confidence_never_alerts_witness:
  "det_confidence (sample_detection 0 0.3) < min_confidence sample_config
   \<and> accept (classify sample_config (sample_detection 0 0.3)) = False
   \<and> ingest sample_config sample_cams (sample_detection 0 0.3) empty_coordinator
       = empty_coordinator
   \<and> accept (classify sample_config (sample_detection 0 0.95)) = True"
proof -
  have low: "det_confidence (sample_detection 0 0.3) < min_confidence sample_config"
    by (simp add: sample_detection_def sample_config_def)
  have ok: "accept (classify sample_config (sample_detection 0 0.95)) = True"
    by (simp add: classify_def sample_detection_def sample_config_def)
  from low_confidence_never_alerts [OF low, of sample_cams empty_coordinator] low ok
  show ?thesis
    by simp
qed

lemma ingest_suppressed:
  assumes "on_pair cfg c k d" "window st (c, k) = Some t0" "captured_at d - t0 < cooldown_interval cfg"
  shows "ingest cfg cams d st = st"
  using assms
  by (simp add: ingest_def on_pair_def Let_def check_and_record_def shouldEmit_def)

lemma ingest_all_suppressed:
  assumes "window st (c, k) = Some t0"
    and "list_all (\<lambda>d. on_pair cfg c k d \<and> captured_at d - t0 < cooldown_interval cfg) ds"
  shows "ingest_all cfg cams ds st = st"
  using assms unfolding ingest_all_def
  by (induction ds) (auto simp: ingest_suppressed)

lemma ingest_emitted:
  assumes "on_pair cfg c k d" "shouldEmit cfg (window st) c k (captured_at d)"
  shows "window (ingest cfg cams d st) (c, k) = Some (captured_at d)"
    and "length (alerts_of c k (ingest cfg cams d st)) = Suc (length (alerts_of c k st))"
    and "length (stored (store (ingest cfg cams d st))) = Suc (length (stored (store st)))"
  using assms
  by (simp_all add: ingest_def on_pair_def Let_def check_and_record_def record_emission_def
        create_def alerts_of_def)

lemma shouldEmit_iff:
  "shouldEmit cfg w c k now \<longleftrightarrow>
     (w (c, k) = None \<or> (\<exists>last. w (c, k) = Some last \<and> now - last \<ge> cooldown_interval cfg))"
  by (simp add: shouldEmit_def split: option.splits)

text \<open>
  C2. \<^verbatim>\<open>shouldEmit\<close> is true iff the pair has no record or \<open>now - last_emitted_at\<close>
  is at least the cooldown. For a pair with no record yet, two or more accepted
  detections on it, all less than one cooldown after the first, create exactly one
  alert; two accepted detections of which the second comes a cooldown or more after
  the first create two.
\<close>

theorem dedup_one_alert_per_cooldown:
  "(shouldEmit cfg w c k now \<longleftrightarrow>
      (w (c, k) = None \<or> (\<exists>last. w (c, k) = Some last \<and> now - last \<ge> cooldown_interval cfg)))
   \<and> (window st (c, k) = None \<and> on_pair cfg c k d0 \<and> rest \<noteq> []
        \<and> list_all (\<lambda>d. on_pair cfg c k d
                          \<and> captured_at d - captured_at d0 < cooldown_interval cfg) rest
      \<longrightarrow> length (alerts_of c k (ingest_all cfg cams (d0 # rest) st))
            = length (alerts_of c k st) + 1
          \<and> length (stored (store (ingest_all cfg cams (d0 # rest) st)))
            = length (stored (store st)) + 1)
   \<and> (window st (c, k) = None \<and> on_pair cfg c k d1 \<and> on_pair cfg c k d2
        \<and> captured_at d2 - captured_at d1 \<ge> cooldown_interval cfg
      \<longrightarrow> length (alerts_of c k (ingest_all cfg cams [d1, d2] st))
            = length (alerts_of c k st) + 2
          \<and> length (stored (store (ingest_all cfg cams [d1, d2] st)))
            = length (stored (store st)) + 2)"
proof (intro conjI impI)
  show "shouldEmit cfg w c k now \<longleftrightarrow>
      (w (c, k) = None \<or> (\<exists>last. w (c, k) = Some last \<and> now - last \<ge> cooldown_interval cfg))"
    by (rule shouldEmit_iff)
next
  assume h: "window st (c, k) = None \<and> on_pair cfg c k d0 \<and> rest \<noteq> []
        \<and> list_all (\<lambda>d. on_pair cfg c k d
                          \<and> captured_at d - captured_at d0 < cooldown_interval cfg) rest"
  let ?s1 = "ingest cfg cams d0 st"
  from h have e: "shouldEmit cfg (window st) c k (captured_at d0)"
    by (simp add: shouldEmit_def)
  from h have p: "on_pair cfg c k d0" by simp
  have w1: "window ?s1 (c, k) = Some (captured_at d0)"
    by (rule ingest_emitted(1) [OF p e])
  have "ingest_all cfg cams rest ?s1 = ?s1"
    using h by (intro ingest_all_suppressed [OF w1]) simp
  then have eq: "ingest_all cfg cams (d0 # rest) st = ?s1"
    by (simp add: ingest_all_def)
  show "length (alerts_of c k (ingest_all cfg cams (d0 # rest) st)) = length (alerts_of c k st) + 1"
    unfolding eq using ingest_emitted(2) [OF p e] by simp
  show "length (stored (store (ingest_all cfg cams (d0 # rest) st))) = length (stored (store st)) + 1"
    unfolding eq using ingest_emitted(3) [OF p e] by simp
next
  assume h: "window st (c, k) = None \<and> on_pair cfg c k d1 \<and> on_pair cfg c k d2
        \<and> captured_at d2 - captured_at d1 \<ge> cooldown_interval cfg"
  let ?s1 = "ingest cfg cams d1 st"
  from h have e1: "shouldEmit cfg (window st) c k (captured_at d1)"
    by (simp add: shouldEmit_def)
  from h have p1: "on_pair cfg c k d1" and p2: "on_pair cfg c k d2" by simp_all
  have w1: "window ?s1 (c, k) = Some (captured_at d1)"
    by (rule ingest_emitted(1) [OF p1 e1])
  have e2: "shouldEmit cfg (window ?s1) c k (captured_at d2)"
    using h w1 by (simp add: shouldEmit_def)
  have eq: "ingest_all cfg cams [d1, d2] st = ingest cfg cams d2 ?s1"
    by (simp add: ingest_all_def)
  show "length (alerts_of c k (ingest_all cfg cams [d1, d2] st)) = length (alerts_of c k st) + 2"
    unfolding eq using ingest_emitted(2) [OF p1 e1] ingest_emitted(2) [OF p2 e2] by simp
  show "length (stored (store (ingest_all cfg cams [d1, d2] st))) = length (stored (store st)) + 2"
    unfolding eq using ingest_emitted(3) [OF p1 e1, of cams] ingest_emitted(3) [OF p2 e2, of cams] by simp
qed

theorem dedup_one_alert_per_cooldown_witness:
  "window empty_coordinator (1, ''gun'') = None
   \<and> on_pair sample_config 1 ''gun'' (sample_detection 0 0.95)
   \<and> length (stored (store (ingest_all sample_config sample_cams
        [sample_detection 0 0.95, sample_detection 5 0.95, sample_detection 29 0.95]
        empty_coordinator))) = 1
   \<and> length (stored (store (ingest_all sample_config sample_cams
        [sample_detection 0 0.95, sample_detection 40 0.95] empty_coordinator))) = 2
   \<and> shouldEmit sample_config [(1, ''gun'') \<mapsto> 0] 1 ''gun'' 30
   \<and> \<not> shouldEmit sample_config [(1, ''gun'') \<mapsto> 0] 1 ''gun'' 29"
proof -
  have w: "window empty_coordinator (1, ''gun'') = None"
    and n: "stored (store empty_coordinator) = []"
    by (simp_all add: empty_coordinator_def empty_store_def)
  have p: "on_pair sample_config 1 ''gun'' (sample_detection t 0.95)" for t
    by (simp add: on_pair_def classify_def sample_detection_def sample_config_def)
  have t: "captured_at (sample_detection t c) = t" for t c
    by (simp add: sample_detection_def)
  have c: "cooldown_interval sample_config = 30"
    by (simp add: sample_config_def)
  from dedup_one_alert_per_cooldown
         [of sample_config "[(1, ''gun'') \<mapsto> 0]" 1 "''gun''" 30 empty_coordinator
             "sample_detection 0 0.95" "[sample_detection 5 0.95, sample_detection 29 0.95]"
             sample_cams "sample_detection 0 0.95" "sample_detection 40 0.95"]
       dedup_one_alert_per_cooldown
         [of sample_config "[(1, ''gun'') \<mapsto> 0]" 1 "''gun''" 29 empty_coordinator
             "sample_detection 0 0.95" "[sample_detection 5 0.95]"
             sample_cams "sample_detection 0 0.95" "sample_detection 40 0.95"]
       w n p t c
  show ?thesis
    by simp
qed

end
